theory Spec2Isabelle
  imports Complex_Main "HOL-Library.Word" "HOL-Library.Signed_Division"
begin

section \<open>Floating-point values\<close>

text \<open>
  The C++ code computes with \<^verbatim>\<open>float\<close> and, where a decimal literal or a function of
  \<^verbatim>\<open>math.h\<close> takes part, with \<^verbatim>\<open>double\<close>. A value of either type is a finite number, an
  infinity or a NaN: an \<open>fval\<close>. A division by zero does not trap on the target; IEEE 754
  gives it an infinity or a NaN. Comparisons do not round: they compare the numbers, and
  every ordered comparison with a NaN is false. A conversion between \<^verbatim>\<open>int\<close> and a
  floating-point type is exact for the integers that occur (counts and indices below 65,
  EMG sums below 10241, and the constants 0, 1, 2, 6, 10 and 1000).
\<close>

datatype fval = Fin real | PInf | NInf | NaN

fun flt :: "fval \<Rightarrow> fval \<Rightarrow> bool" where
  "flt (Fin a) (Fin b) = (a < b)"
| "flt (Fin a) PInf = True"
| "flt NInf (Fin b) = True"
| "flt NInf PInf = True"
| "flt x y = False"

fun fle :: "fval \<Rightarrow> fval \<Rightarrow> bool" where
  "fle (Fin a) (Fin b) = (a \<le> b)"
| "fle (Fin a) PInf = True"
| "fle NInf (Fin b) = True"
| "fle NInf PInf = True"
| "fle NInf NInf = True"
| "fle PInf PInf = True"
| "fle x y = False"

definition fgt :: "fval \<Rightarrow> fval \<Rightarrow> bool" where
  "fgt x y = flt y x"

definition fge :: "fval \<Rightarrow> fval \<Rightarrow> bool" where
  "fge x y = fle y x"

text \<open>
  The arithmetic operations round, and how they round depends on the target: on an 8-bit
  AVR board \<^verbatim>\<open>double\<close> is the same 32-bit type as \<^verbatim>\<open>float\<close>, on a 32-bit board it has 64
  bits. The classifier is therefore modelled over an arithmetic \<open>ar\<close> that gives the
  operations of the target: the four operations on two \<^verbatim>\<open>float\<close>s, the product and the
  quotient of two \<^verbatim>\<open>double\<close>s, the square root of a \<^verbatim>\<open>float\<close> stored in a \<^verbatim>\<open>float\<close>, the
  conversion of a \<^verbatim>\<open>double\<close> to \<^verbatim>\<open>float\<close>, and the \<^verbatim>\<open>double\<close> that a decimal literal stands
  for. The conversion of a \<^verbatim>\<open>float\<close> to \<^verbatim>\<open>double\<close> keeps the value. Nothing is assumed of
  the operations: what is proved of the classifier holds for every \<open>ar\<close>.
\<close>

record arith =
  add_f :: "fval \<Rightarrow> fval \<Rightarrow> fval"
  sub_f :: "fval \<Rightarrow> fval \<Rightarrow> fval"
  mul_f :: "fval \<Rightarrow> fval \<Rightarrow> fval"
  div_f :: "fval \<Rightarrow> fval \<Rightarrow> fval"
  mul_d :: "fval \<Rightarrow> fval \<Rightarrow> fval"
  div_d :: "fval \<Rightarrow> fval \<Rightarrow> fval"
  sqrt_f :: "fval \<Rightarrow> fval"
  to_float :: "fval \<Rightarrow> fval"
  lit_d :: "real \<Rightarrow> fval"

text \<open>
  The operations without rounding, overflow or underflow. The quotient of the two EMG sums
  is taken with \<open>fdiv\<close>: the sums are integers below 10241, the quotient is compared with
  \<open>0.5\<close>, and a quotient of two such integers that is below \<open>0.5\<close> is so by more than the
  rounding of a \<^verbatim>\<open>float\<close>. The zero divisors that occur (a count of points, a sum of
  squares, a sum of absolute values) are all \<open>+0\<close>, so zero carries no sign here.
\<close>

fun fadd :: "fval \<Rightarrow> fval \<Rightarrow> fval" where
  "fadd (Fin a) (Fin b) = Fin (a + b)"
| "fadd (Fin a) PInf = PInf"
| "fadd (Fin a) NInf = NInf"
| "fadd PInf (Fin b) = PInf"
| "fadd NInf (Fin b) = NInf"
| "fadd PInf PInf = PInf"
| "fadd NInf NInf = NInf"
| "fadd PInf NInf = NaN"
| "fadd NInf PInf = NaN"
| "fadd NaN y = NaN"
| "fadd x NaN = NaN"

fun fsub :: "fval \<Rightarrow> fval \<Rightarrow> fval" where
  "fsub (Fin a) (Fin b) = Fin (a - b)"
| "fsub (Fin a) PInf = NInf"
| "fsub (Fin a) NInf = PInf"
| "fsub PInf (Fin b) = PInf"
| "fsub NInf (Fin b) = NInf"
| "fsub PInf NInf = PInf"
| "fsub NInf PInf = NInf"
| "fsub PInf PInf = NaN"
| "fsub NInf NInf = NaN"
| "fsub NaN y = NaN"
| "fsub x NaN = NaN"

fun fmul :: "fval \<Rightarrow> fval \<Rightarrow> fval" where
  "fmul (Fin a) (Fin b) = Fin (a * b)"
| "fmul (Fin a) PInf = (if a = 0 then NaN else if 0 < a then PInf else NInf)"
| "fmul (Fin a) NInf = (if a = 0 then NaN else if 0 < a then NInf else PInf)"
| "fmul PInf (Fin b) = (if b = 0 then NaN else if 0 < b then PInf else NInf)"
| "fmul NInf (Fin b) = (if b = 0 then NaN else if 0 < b then NInf else PInf)"
| "fmul PInf PInf = PInf"
| "fmul PInf NInf = NInf"
| "fmul NInf PInf = NInf"
| "fmul NInf NInf = PInf"
| "fmul NaN y = NaN"
| "fmul x NaN = NaN"

fun fdiv :: "fval \<Rightarrow> fval \<Rightarrow> fval" where
  "fdiv (Fin a) (Fin b) =
     (if b = 0 then (if a = 0 then NaN else if 0 < a then PInf else NInf) else Fin (a / b))"
| "fdiv (Fin a) PInf = Fin 0"
| "fdiv (Fin a) NInf = Fin 0"
| "fdiv PInf (Fin b) = (if 0 \<le> b then PInf else NInf)"
| "fdiv NInf (Fin b) = (if 0 \<le> b then NInf else PInf)"
| "fdiv PInf PInf = NaN"
| "fdiv PInf NInf = NaN"
| "fdiv NInf PInf = NaN"
| "fdiv NInf NInf = NaN"
| "fdiv NaN y = NaN"
| "fdiv x NaN = NaN"

fun fsqrt :: "fval \<Rightarrow> fval" where
  "fsqrt (Fin a) = (if a < 0 then NaN else Fin (sqrt a))"
| "fsqrt PInf = PInf"
| "fsqrt NInf = NaN"
| "fsqrt NaN = NaN"

text \<open>
  The arithmetic without rounding. It is the arithmetic of the examples, whose numbers are
  binary fractions of a few bits: a sum, product, quotient or root that the classifier
  takes of them is either such a fraction again, which the target computes without
  rounding too, or far from the number it is compared with.
\<close>

definition exact_arith :: arith where
  "exact_arith =
     \<lparr>add_f = fadd, sub_f = fsub, mul_f = fmul, div_f = fdiv, mul_d = fmul, div_d = fdiv,
      sqrt_f = fsqrt, to_float = (\<lambda>v. v), lit_d = Fin\<rparr>"

section \<open>gestureAnalysis.h: constants and gesture types\<close>

text \<open>
  The macros with a decimal point are \<^verbatim>\<open>double\<close> literals; the definitions give the number
  that is written, and the code below takes its \<^verbatim>\<open>double\<close> with \<open>lit_d\<close>. \<^verbatim>\<open>PI\<close> is the
  macro of \<^verbatim>\<open>Arduino.h\<close>, the literal \<^verbatim>\<open>3.1415926535897932384626433832795\<close>, and
  \<^verbatim>\<open>ROTATION_MIN_ANGLE\<close> expands to the \<^verbatim>\<open>double\<close> quotient \<^verbatim>\<open>PI/6\<close>.
\<close>

definition GESTURE_CACHE_SIZE :: int where "GESTURE_CACHE_SIZE = 128"
definition STRAIGHT_MAX_RELATION :: real where "STRAIGHT_MAX_RELATION = 5 / 10"
definition STRAIGHT_MIN_DISTANCE :: real where "STRAIGHT_MIN_DISTANCE = 3 / 10"
definition Y_DEVIATION_CORRECTION :: real where "Y_DEVIATION_CORRECTION = 13 / 10"
definition GESTURE_CIRCLE_SAMPLES :: int where "GESTURE_CIRCLE_SAMPLES = 10"
definition CIRCLE_MIN_DIAMETER :: real where "CIRCLE_MIN_DIAMETER = 65 / 100"
definition CIRCLE_MAX_DEVIATION :: real where "CIRCLE_MAX_DEVIATION = 3 / 10"
definition MAX_ENDS_DISCANCE :: real where "MAX_ENDS_DISCANCE = 4 / 10"
definition ROTATION_MAX_VARIANCE :: real where "ROTATION_MAX_VARIANCE = 15 / 100"

definition PI :: real where
  "PI = 31415926535897932384626433832795 / 10000000000000000000000000000000"

definition ROTATION_MIN_ANGLE :: "arith \<Rightarrow> fval" where
  "ROTATION_MIN_ANGLE ar = div_d ar (lit_d ar PI) (Fin 6)"

datatype GestureType =
    ARM_UP | ARM_DOWN | ARM_LEFT | ARM_RIGHT
  | ARM_CIRCLE_CW | ARM_CIRCLE_CCW | ARM_ROTATE_CW | ARM_ROTATE_CCW
  | ARM_UNKNOWN

section \<open>gestureAnalysis.cpp: the gesture cache\<close>

text \<open>
  The three globals of the file. \<open>gesture_cache\<close> is the memory seen through the array:
  index \<open>i\<close> with \<open>0 \<le> i < GESTURE_CACHE_SIZE\<close> is element \<open>i\<close> of the array, any other
  index is the memory next to it, which C++ leaves undefined to read and which the target
  returns as it is. An element holds an arc sine of a number between \<open>-0.99999\<close> and
  \<open>0.99999\<close>, a finite number, taken here without rounding. The roll angle is the arc sine
  of an entry of a matrix product and can be a NaN. \<open>int\<close> is wide enough for every value
  the offset takes, so it is modelled without wrap-around.
\<close>

record gesture_state =
  gesture_cache :: "int \<Rightarrow> real"
  gesture_cache_offset :: int
  gesture_roll_angle :: fval

definition gesture_init :: gesture_state where
  "gesture_init =
     \<lparr>gesture_cache = (\<lambda>i. 0), gesture_cache_offset = 0, gesture_roll_angle = Fin 0\<rparr>"

definition clip :: "real \<Rightarrow> real \<Rightarrow> real \<Rightarrow> real" where
  "clip n lower upper = max lower (min n upper)"

definition sqr :: "arith \<Rightarrow> fval \<Rightarrow> fval" where
  "sqr ar a = mul_f ar a a"

definition resetGestureCache :: "gesture_state \<Rightarrow> gesture_state" where
  "resetGestureCache st = st\<lparr>gesture_cache_offset := 0, gesture_roll_angle := Fin 0\<rparr>"

definition gestureBufferFull :: "gesture_state \<Rightarrow> bool" where
  "gestureBufferFull st = (gesture_cache_offset st = GESTURE_CACHE_SIZE)"

definition updateGestureCache :: "real \<Rightarrow> real \<Rightarrow> fval \<Rightarrow> gesture_state \<Rightarrow> gesture_state" where
  "updateGestureCache x y roll_angle st =
     (let st1 =
        (if gesture_cache_offset st < GESTURE_CACHE_SIZE
         then st\<lparr>gesture_cache :=
                   (gesture_cache st)
                     (gesture_cache_offset st := arcsin (clip x (- 0.99999) 0.99999),
                      gesture_cache_offset st + 1 := arcsin (clip y (- 0.99999) 0.99999)),
                 gesture_cache_offset := gesture_cache_offset st + 2\<rparr>
         else st)
      in st1\<lparr>gesture_roll_angle := roll_angle\<rparr>)"

definition getSqrPointDist :: "arith \<Rightarrow> fval \<Rightarrow> fval \<Rightarrow> fval \<Rightarrow> fval \<Rightarrow> fval" where
  "getSqrPointDist ar x1 y1 x2 y2 = add_f ar (sqr ar (sub_f ar x1 x2)) (sqr ar (sub_f ar y1 y2))"

text \<open>A run of pushes, one per sample \<open>(x, y, roll_angle)\<close>, oldest first.\<close>

fun push_all :: "(real \<times> real \<times> fval) list \<Rightarrow> gesture_state \<Rightarrow> gesture_state" where
  "push_all [] st = st"
| "push_all ((x, y, r) # ps) st = push_all ps (updateGestureCache x y r st)"

text \<open>The invariant of the write cursor.\<close>

definition cache_inv :: "gesture_state \<Rightarrow> bool" where
  "cache_inv st =
     (even (gesture_cache_offset st) \<and> 0 \<le> gesture_cache_offset st
      \<and> gesture_cache_offset st \<le> GESTURE_CACHE_SIZE)"

section \<open>gestureAnalysis.cpp: processCacheData\<close>

subsection \<open>Test for circular movement\<close>

text \<open>
  The inner loop of lines 120-130: the greatest distance from the sample point
  \<open>(point_x, point_y)\<close> to one of the recorded points, starting from the value \<open>d0\<close> that
  \<open>sample_point_diameters[j]\<close> holds.
\<close>

definition max_distance :: "arith \<Rightarrow> (int \<Rightarrow> real) \<Rightarrow> int \<Rightarrow> real \<Rightarrow> real \<Rightarrow> fval \<Rightarrow> fval" where
  "max_distance ar c num_points point_x point_y d0 =
     fold (\<lambda>i d.
             let dist = sqrt_f ar (getSqrPointDist ar (Fin point_x) (Fin point_y)
                                     (Fin (c (2 * int i))) (Fin (c (2 * int i + 1))))
             in if fgt dist d then dist else d)
          [0..<nat num_points] d0"

text \<open>
  The outer loop of lines 112-131 over the sample points. Its state is the array
  \<open>sample_point_diameters\<close> and the two sums \<open>center_x\<close>, \<open>center_y\<close>.
\<close>

type_synonym sample_acc = "fval list \<times> fval \<times> fval"

definition sample_step :: "arith \<Rightarrow> (int \<Rightarrow> real) \<Rightarrow> int \<Rightarrow> int \<Rightarrow> nat \<Rightarrow> sample_acc \<Rightarrow> sample_acc" where
  "sample_step ar c num_points index_offset j acc =
     (case acc of (ds, cx, cy) \<Rightarrow>
        let point_x = c (2 * int j * index_offset);
            point_y = c (2 * int j * index_offset + 1)
        in (ds[j := max_distance ar c num_points point_x point_y (ds ! j)],
            add_f ar cx (Fin point_x), add_f ar cy (Fin point_y)))"

definition sample_loop :: "arith \<Rightarrow> (int \<Rightarrow> real) \<Rightarrow> int \<Rightarrow> int \<Rightarrow> sample_acc" where
  "sample_loop ar c num_points index_offset =
     fold (sample_step ar c num_points index_offset) [0..<nat GESTURE_CIRCLE_SAMPLES]
          (replicate (nat GESTURE_CIRCLE_SAMPLES) (Fin 0), Fin 0, Fin 0)"

definition sample_point_diameters :: "arith \<Rightarrow> (int \<Rightarrow> real) \<Rightarrow> int \<Rightarrow> int \<Rightarrow> fval list" where
  "sample_point_diameters ar c num_points index_offset =
     fst (sample_loop ar c num_points index_offset)"

text \<open>Lines 134-135.\<close>

definition center_x :: "arith \<Rightarrow> (int \<Rightarrow> real) \<Rightarrow> int \<Rightarrow> int \<Rightarrow> fval" where
  "center_x ar c num_points index_offset =
     div_f ar (fst (snd (sample_loop ar c num_points index_offset)))
       (Fin (real_of_int GESTURE_CIRCLE_SAMPLES))"

definition center_y :: "arith \<Rightarrow> (int \<Rightarrow> real) \<Rightarrow> int \<Rightarrow> int \<Rightarrow> fval" where
  "center_y ar c num_points index_offset =
     div_f ar (snd (snd (sample_loop ar c num_points index_offset)))
       (Fin (real_of_int GESTURE_CIRCLE_SAMPLES))"

text \<open>
  Lines 146-151: the \<^verbatim>\<open>float\<close> sum of the diameters; the divisor
  \<^verbatim>\<open>(float) GESTURE_CIRCLE_SAMPLES * 2.\<close> is a \<^verbatim>\<open>double\<close> product, the quotient a \<^verbatim>\<open>double\<close>
  quotient, stored in a \<^verbatim>\<open>float\<close>.
\<close>

definition average_radius :: "arith \<Rightarrow> (int \<Rightarrow> real) \<Rightarrow> int \<Rightarrow> int \<Rightarrow> fval" where
  "average_radius ar c num_points index_offset =
     to_float ar
       (div_d ar
          (fold (\<lambda>j a. add_f ar a (sample_point_diameters ar c num_points index_offset ! j))
             [0..<nat GESTURE_CIRCLE_SAMPLES] (Fin 0))
          (mul_d ar (Fin (real_of_int GESTURE_CIRCLE_SAMPLES)) (Fin 2)))"

text \<open>
  The loop of lines 155-179. The tracked extremes are copies of cache elements or the
  start values 0 and 1000, finite numbers. The indices are \<^verbatim>\<open>float\<close> and \<^verbatim>\<open>short\<close> in the
  source and hold point numbers below 65, which both types represent exactly.
\<close>

record circle_track =
  circular_deviation :: fval
  x_max :: real
  x_max_index :: int
  x_min :: real
  x_min_index :: int
  y_max :: real
  y_max_index :: int

definition track_init :: circle_track where
  "track_init =
     \<lparr>circular_deviation = Fin 0, x_max = 0, x_max_index = 0, x_min = 1000, x_min_index = 0,
      y_max = 0, y_max_index = 0\<rparr>"

definition track_step :: "arith \<Rightarrow> (int \<Rightarrow> real) \<Rightarrow> fval \<Rightarrow> fval \<Rightarrow> fval \<Rightarrow> nat \<Rightarrow> circle_track \<Rightarrow> circle_track" where
  "track_step ar c cx cy avg_radius i t =
     (let x = c (2 * int i);
          y = c (2 * int i + 1);
          dist = sqrt_f ar (getSqrPointDist ar cx cy (Fin x) (Fin y));
          t1 = t\<lparr>circular_deviation :=
                   add_f ar (circular_deviation t) (sqr ar (sub_f ar dist avg_radius))\<rparr>;
          t2 = (if x > x_max t1 then t1\<lparr>x_max := x, x_max_index := int i\<rparr> else t1);
          t3 = (if x < x_min t2 then t2\<lparr>x_min := x, x_min_index := int i\<rparr> else t2)
      in (if y > y_max t3 then t3\<lparr>y_max := y, y_max_index := int i\<rparr> else t3))"

definition track_loop :: "arith \<Rightarrow> (int \<Rightarrow> real) \<Rightarrow> int \<Rightarrow> int \<Rightarrow> circle_track" where
  "track_loop ar c num_points index_offset =
     fold (track_step ar c (center_x ar c num_points index_offset)
             (center_y ar c num_points index_offset)
             (average_radius ar c num_points index_offset))
          [0..<nat num_points] track_init"

text \<open>Line 182.\<close>

definition circle_deviation :: "arith \<Rightarrow> (int \<Rightarrow> real) \<Rightarrow> int \<Rightarrow> int \<Rightarrow> fval" where
  "circle_deviation ar c num_points index_offset =
     sqrt_f ar (div_f ar (circular_deviation (track_loop ar c num_points index_offset))
                  (Fin (real_of_int num_points)))"

definition ends_distance :: "arith \<Rightarrow> (int \<Rightarrow> real) \<Rightarrow> int \<Rightarrow> fval" where
  "ends_distance ar c num_points =
     sqrt_f ar (getSqrPointDist ar (Fin (c 0)) (Fin (c 1))
                  (Fin (c (2 * num_points - 2))) (Fin (c (2 * num_points - 1))))"

definition clockwise :: "circle_track \<Rightarrow> bool" where
  "clockwise t =
     ((x_min_index t < y_max_index t \<and> y_max_index t < x_max_index t)
      \<or> (y_max_index t < x_max_index t \<and> x_max_index t < x_min_index t)
      \<or> (x_max_index t < x_min_index t \<and> x_min_index t < y_max_index t))"

text \<open>
  Lines 109-209: \<open>Some\<close> label when the stage returns, \<open>None\<close> when control falls through.
  The three comparisons of line 202 are taken in \<^verbatim>\<open>double\<close>: the product
  \<^verbatim>\<open>average_radius * 2.\<close> is a \<^verbatim>\<open>double\<close> product.
\<close>

definition circle_test :: "arith \<Rightarrow> (int \<Rightarrow> real) \<Rightarrow> int \<Rightarrow> GestureType option" where
  "circle_test ar c num_points =
     (let index_offset = num_points sdiv GESTURE_CIRCLE_SAMPLES
      in if index_offset \<ge> 1 then
           (if fge (mul_d ar (average_radius ar c num_points index_offset) (Fin 2))
                   (lit_d ar CIRCLE_MIN_DIAMETER)
               \<and> fle (circle_deviation ar c num_points index_offset) (lit_d ar CIRCLE_MAX_DEVIATION)
               \<and> fle (ends_distance ar c num_points) (lit_d ar MAX_ENDS_DISCANCE)
            then Some (if clockwise (track_loop ar c num_points index_offset)
                       then ARM_CIRCLE_CW else ARM_CIRCLE_CCW)
            else None)
         else None)"

subsection \<open>Statistical data, arm rotation and straight movement\<close>

record point_stats =
  x_total :: fval
  y_total :: fval
  x_deviation :: fval
  y_deviation :: fval

definition stats_step :: "arith \<Rightarrow> (int \<Rightarrow> real) \<Rightarrow> nat \<Rightarrow> point_stats \<Rightarrow> point_stats" where
  "stats_step ar c i s =
     s\<lparr>x_total := add_f ar (x_total s) (Fin (c (2 * int i))),
       y_total := add_f ar (y_total s) (Fin (c (2 * int i + 1))),
       x_deviation := add_f ar (x_deviation s) (sqr ar (Fin (c (2 * int i)))),
       y_deviation := add_f ar (y_deviation s) (sqr ar (Fin (c (2 * int i + 1))))\<rparr>"

definition stats_loop :: "arith \<Rightarrow> (int \<Rightarrow> real) \<Rightarrow> int \<Rightarrow> point_stats" where
  "stats_loop ar c num_points =
     fold (stats_step ar c) [0..<nat num_points]
          \<lparr>x_total = Fin 0, y_total = Fin 0, x_deviation = Fin 0, y_deviation = Fin 0\<rparr>"

text \<open>
  Lines 230-237. The divisor \<open>num_points\<close> is zero for an empty cache. The product with
  \<^verbatim>\<open>Y_DEVIATION_CORRECTION\<close> is a \<^verbatim>\<open>double\<close> product stored in a \<^verbatim>\<open>float\<close>.
\<close>

definition x_dev :: "arith \<Rightarrow> (int \<Rightarrow> real) \<Rightarrow> int \<Rightarrow> fval" where
  "x_dev ar c num_points =
     div_f ar (x_deviation (stats_loop ar c num_points)) (Fin (real_of_int num_points))"

definition y_dev :: "arith \<Rightarrow> (int \<Rightarrow> real) \<Rightarrow> int \<Rightarrow> fval" where
  "y_dev ar c num_points =
     to_float ar
       (mul_d ar (div_f ar (y_deviation (stats_loop ar c num_points)) (Fin (real_of_int num_points)))
          (lit_d ar Y_DEVIATION_CORRECTION))"

definition relation :: "arith \<Rightarrow> (int \<Rightarrow> real) \<Rightarrow> int \<Rightarrow> fval" where
  "relation ar c num_points = div_f ar (x_dev ar c num_points) (y_dev ar c num_points)"

text \<open>
  Lines 244-250. The two deviations are compared with the \<^verbatim>\<open>double\<close> constant; \<^verbatim>\<open>sqr\<close>
  takes a \<^verbatim>\<open>float\<close>, so the angle constant is converted before it is squared.
\<close>

definition rotation_test :: "arith \<Rightarrow> (int \<Rightarrow> real) \<Rightarrow> int \<Rightarrow> fval \<Rightarrow> GestureType option" where
  "rotation_test ar c num_points roll =
     (if fle (x_dev ar c num_points) (lit_d ar ROTATION_MAX_VARIANCE)
         \<and> fle (y_dev ar c num_points) (lit_d ar ROTATION_MAX_VARIANCE)
         \<and> fgt (sqr ar roll) (sqr ar (to_float ar (ROTATION_MIN_ANGLE ar)))
      then Some (if flt roll (Fin 0) then ARM_ROTATE_CW else ARM_ROTATE_CCW)
      else None)"

text \<open>Line 257. For an empty cache the two indices are \<open>-2\<close> and \<open>-1\<close>.\<close>

definition distance :: "arith \<Rightarrow> (int \<Rightarrow> real) \<Rightarrow> int \<Rightarrow> fval" where
  "distance ar c num_points =
     sqrt_f ar (getSqrPointDist ar (Fin 0) (Fin 0)
                  (Fin (c (2 * num_points - 2))) (Fin (c (2 * num_points - 1))))"

text \<open>Lines 260-279. \<^verbatim>\<open>1./STRAIGHT_MAX_RELATION\<close> is a \<^verbatim>\<open>double\<close> quotient.\<close>

definition straight_test :: "arith \<Rightarrow> (int \<Rightarrow> real) \<Rightarrow> int \<Rightarrow> GestureType" where
  "straight_test ar c num_points =
     (if fgt (x_dev ar c num_points) (y_dev ar c num_points)
         \<and> fgt (relation ar c num_points) (div_d ar (Fin 1) (lit_d ar STRAIGHT_MAX_RELATION))
         \<and> fge (distance ar c num_points) (lit_d ar STRAIGHT_MIN_DISTANCE)
      then (if fgt (x_total (stats_loop ar c num_points)) (Fin 0) then ARM_RIGHT else ARM_LEFT)
      else if fgt (y_dev ar c num_points) (x_dev ar c num_points)
         \<and> flt (relation ar c num_points) (lit_d ar STRAIGHT_MAX_RELATION)
         \<and> fge (distance ar c num_points) (lit_d ar STRAIGHT_MIN_DISTANCE)
      then (if fgt (y_total (stats_loop ar c num_points)) (Fin 0) then ARM_UP else ARM_DOWN)
      else ARM_UNKNOWN)"

text \<open>
  The cascade on \<open>num_points\<close> points: the first stage that returns gives the label.
\<close>

definition classify :: "arith \<Rightarrow> (int \<Rightarrow> real) \<Rightarrow> int \<Rightarrow> fval \<Rightarrow> GestureType" where
  "classify ar c num_points roll =
     (case circle_test ar c num_points of
        Some g \<Rightarrow> g
      | None \<Rightarrow>
          (case rotation_test ar c num_points roll of
             Some g \<Rightarrow> g
           | None \<Rightarrow> straight_test ar c num_points))"

text \<open>
  Lines 88-93 store the number of points and reset the offset before anything else; the
  division of the \<^verbatim>\<open>int\<close> offset truncates towards zero.
\<close>

definition num_points_of :: "gesture_state \<Rightarrow> int" where
  "num_points_of st = gesture_cache_offset st sdiv 2"

definition processCacheData :: "arith \<Rightarrow> gesture_state \<Rightarrow> GestureType \<times> gesture_state" where
  "processCacheData ar st =
     (classify ar (gesture_cache st) (num_points_of st) (gesture_roll_angle st),
      st\<lparr>gesture_cache_offset := 0\<rparr>)"

section \<open>MyoIMUGestureController\<close>

definition EMG_CACHE_SIZE :: nat where "EMG_CACHE_SIZE = 10"
definition EMG_SYNC_TIME :: "32 word" where "EMG_SYNC_TIME = 3000"
definition LOCK_TOGGLE_THRESHOLD :: real where "LOCK_TOGGLE_THRESHOLD = 5 / 10"
definition AFTER_SYNC_WAIT :: "32 word" where "AFTER_SYNC_WAIT = 500"

text \<open>
  What the controller does to the outside: the two callbacks given to \<^verbatim>\<open>begin\<close> and the
  vibration command of the bridge. A handler returns the calls it made, in order.
\<close>

datatype event = OnGesture GestureType | OnLockChange bool | Vibrate nat

text \<open>
  The static members of the class, with the globals of gestureAnalysis.cpp as the field
  \<open>gesture\<close>. \<^verbatim>\<open>unsigned long\<close> is 32 bits wide and wraps around; \<^verbatim>\<open>long\<close> holds a sum of at
  most 80 absolute values of bytes and is modelled as \<open>int\<close>. The reference matrix is left
  out: it enters the handler only through the values of an \<open>imu_sample\<close>.
\<close>

record controller_state =
  gesture :: gesture_state
  refresh_init :: bool
  emgCache :: "8 word list list"
  emgSum :: int
  emgSync :: int
  isEMGSynced :: bool
  lock_toggle :: bool
  locked :: bool
  timeConnected :: "32 word"

text \<open>
  The initial values of the member definitions. \<^verbatim>\<open>locked\<close> is defined without an
  initialiser; as a static member it starts zero-initialised, that is \<open>False\<close>.
\<close>

definition controller_init :: controller_state where
  "controller_init =
     \<lparr>gesture = gesture_init, refresh_init = True,
      emgCache = replicate EMG_CACHE_SIZE (replicate 8 0),
      emgSum = 0, emgSync = 0, isEMGSynced = False, lock_toggle = True, locked = False,
      timeConnected = 0\<rparr>"

text \<open>
  Lines 84-97 of \<^verbatim>\<open>handleIMUData\<close> turn the quaternion and the reference matrix into the
  matrix \<^verbatim>\<open>local\<close>. The three values the rest of the handler uses are the sample:
  \<^verbatim>\<open>local[2][1]\<close>, \<^verbatim>\<open>local[2][0]\<close> and \<^verbatim>\<open>roll_angle = asin(local[1][0])\<close>.
\<close>

record imu_sample =
  local_2_1 :: real
  local_2_0 :: real
  roll_angle :: fval

text \<open>Line 100: the lock evaluation runs once synced and past the settle delay.\<close>

definition lock_eval_active :: "controller_state \<Rightarrow> 32 word \<Rightarrow> bool" where
  "lock_eval_active s millis =
     (isEMGSynced s \<and> timeConnected s + EMG_SYNC_TIME + AFTER_SYNC_WAIT < millis)"

text \<open>Line 102: the quotient of the two sums, and its comparison with the threshold.\<close>

definition emg_ratio :: "controller_state \<Rightarrow> fval" where
  "emg_ratio s = fdiv (Fin (real_of_int (emgSum s))) (Fin (real_of_int (emgSync s)))"

definition below_threshold :: "controller_state \<Rightarrow> bool" where
  "below_threshold s = flt (emg_ratio s) (Fin LOCK_TOGGLE_THRESHOLD)"

text \<open>Lines 104-124, the branch of a ratio below the threshold.\<close>

definition pose_released :: "controller_state \<Rightarrow> controller_state \<times> event list" where
  "pose_released s =
     (let s1 = (if \<not> locked s \<and> gestureBufferFull (gesture s)
                then s\<lparr>gesture := resetGestureCache (gesture s), lock_toggle := False\<rparr>
                else s)
      in if \<not> lock_toggle s1 then
           (let s2 = s1\<lparr>lock_toggle := True, locked := \<not> locked s1\<rparr>;
                s3 = (if \<not> locked s2
                      then s2\<lparr>gesture := resetGestureCache (gesture s2)\<rparr> else s2)
            in (s3, [OnLockChange (locked s3)]))
         else (s1, []))"

text \<open>Lines 127-141, the other branch.\<close>

definition pose_held :: "arith \<Rightarrow> controller_state \<Rightarrow> controller_state \<times> event list" where
  "pose_held ar s =
     (if lock_toggle s then
        (let s1 = s\<lparr>refresh_init := True, lock_toggle := False\<rparr>
         in if \<not> locked s1 then
              (case processCacheData ar (gesture s1) of
                 (g, gs) \<Rightarrow>
                   (s1\<lparr>gesture := gs\<rparr>, if g \<noteq> ARM_UNKNOWN then [OnGesture g] else []))
            else (s1, []))
      else (s, []))"

definition handleIMUData :: "arith \<Rightarrow> imu_sample \<Rightarrow> 32 word \<Rightarrow> controller_state \<Rightarrow> controller_state \<times> event list" where
  "handleIMUData ar d millis s0 =
     (let s = s0\<lparr>refresh_init := False\<rparr>
      in if lock_eval_active s millis then
           (case (if below_threshold s then pose_released s else pose_held ar s) of
              (s1, evs) \<Rightarrow>
                ((if \<not> locked s1
                  then s1\<lparr>gesture :=
                           updateGestureCache (local_2_1 d) (local_2_0 d) (roll_angle d) (gesture s1)\<rparr>
                  else s1),
                 evs))
         else (s, []))"

text \<open>
  \<^verbatim>\<open>updateCache\<close>: the rows move down by one, the new row goes first, and the sum is taken
  again over all rows. \<^verbatim>\<open>abs\<close> works on the byte promoted to \<^verbatim>\<open>int\<close>.
\<close>

definition updateCache :: "8 word list \<Rightarrow> controller_state \<Rightarrow> controller_state" where
  "updateCache data s =
     (let rows = data # take (EMG_CACHE_SIZE - 1) (emgCache s)
      in s\<lparr>emgCache := rows,
           emgSum := sum_list (map (\<lambda>row. sum_list (map (\<lambda>v. \<bar>sint v\<bar>) row)) rows)\<rparr>)"

text \<open>
  \<^verbatim>\<open>handleEMGData\<close> reads the clock twice: \<open>millis1\<close> at line 176 (only when the sync has not
  started), \<open>millis2\<close> at line 183.
\<close>

definition handleEMGData :: "8 word list \<Rightarrow> 32 word \<Rightarrow> 32 word \<Rightarrow> controller_state \<Rightarrow> controller_state \<times> event list" where
  "handleEMGData data millis1 millis2 s0 =
     (let s = updateCache data s0;
          s1 = (if timeConnected s = 0 then s\<lparr>timeConnected := millis1\<rparr> else s)
      in if timeConnected s1 + EMG_SYNC_TIME > millis2 then
           ((if emgSum s1 > emgSync s1 then s1\<lparr>emgSync := emgSum s1\<rparr> else s1), [])
         else if \<not> isEMGSynced s1 then (s1\<lparr>isEMGSynced := True\<rparr>, [Vibrate 1])
         else (s1, []))"

text \<open>The bridge calls the two handlers as data arrives; a run is a list of such calls.\<close>

datatype input = IMU imu_sample "32 word" | EMG "8 word list" "32 word" "32 word"

fun step :: "arith \<Rightarrow> input \<Rightarrow> controller_state \<Rightarrow> controller_state \<times> event list" where
  "step ar (IMU d millis) s = handleIMUData ar d millis s"
| "step ar (EMG data millis1 millis2) s = handleEMGData data millis1 millis2 s"

fun run :: "arith \<Rightarrow> input list \<Rightarrow> controller_state \<Rightarrow> controller_state \<times> event list" where
  "run ar [] s = (s, [])"
| "run ar (i # is) s =
     (case step ar i s of (s1, evs) \<Rightarrow> (case run ar is s1 of (s2, evs2) \<Rightarrow> (s2, evs @ evs2)))"

section \<open>Traces of callbacks\<close>

text \<open>The arguments of the calls of \<^verbatim>\<open>on_lock_change\<close> and of \<^verbatim>\<open>on_gesture\<close> in a trace.\<close>

fun lock_changes :: "event list \<Rightarrow> bool list" where
  "lock_changes [] = []"
| "lock_changes (OnLockChange b # evs) = b # lock_changes evs"
| "lock_changes (e # evs) = lock_changes evs"

fun gestures :: "event list \<Rightarrow> GestureType list" where
  "gestures [] = []"
| "gestures (OnGesture g # evs) = g # gestures evs"
| "gestures (e # evs) = gestures evs"

text \<open>
  The toggles of a run: for each handler call that changes \<open>locked\<close>, the new value, in order.
\<close>

fun toggles :: "arith \<Rightarrow> input list \<Rightarrow> controller_state \<Rightarrow> bool list" where
  "toggles ar [] s = []"
| "toggles ar (i # is) s =
     (let s1 = fst (step ar i s)
      in (if locked s1 \<noteq> locked s then [locked s1] else []) @ toggles ar is s1)"

text \<open>
  The gestures a run is to report, told from the samples alone. An orientation sample is
  evaluated when the lock evaluation is active; the pose is held at an evaluated sample
  whose ratio is not below the threshold. \<open>released\<close> says that the pose was not held at
  the evaluated sample before; it is told from the ratios of the samples, not from a flag
  of the controller. The pose starts at an evaluated sample that holds it while
  \<open>released\<close>: the gesture to report there is the classifier's label for the cache, if the
  controller is unlocked and the label is not \<open>ARM_UNKNOWN\<close>.
\<close>

fun pose_start_gestures :: "arith \<Rightarrow> bool \<Rightarrow> input list \<Rightarrow> controller_state \<Rightarrow> GestureType list" where
  "pose_start_gestures ar released [] s = []"
| "pose_start_gestures ar released (IMU d millis # is) s =
     (let s1 = fst (handleIMUData ar d millis s); label = fst (processCacheData ar (gesture s))
      in if \<not> lock_eval_active s millis then pose_start_gestures ar released is s1
         else if below_threshold s then pose_start_gestures ar True is s1
         else (if released \<and> \<not> locked s \<and> label \<noteq> ARM_UNKNOWN then [label] else [])
              @ pose_start_gestures ar False is s1)"
| "pose_start_gestures ar released (EMG data millis1 millis2 # is) s =
     pose_start_gestures ar released is (fst (handleEMGData data millis1 millis2 s))"

section \<open>The quantities the specification names\<close>

text \<open>
  The specification speaks of the recorded points and of sums, means, distances and maxima
  over them. These definitions follow its words, with the operations of the arithmetic
  \<open>ar\<close>; the theorems below compare them with the loops of the code. Point \<open>i\<close> of a cache
  is the pair at elements \<open>2 i\<close> and \<open>2 i + 1\<close>. A sum runs over its list from the left,
  starting at 0.
\<close>

definition point_x :: "(int \<Rightarrow> real) \<Rightarrow> nat \<Rightarrow> real" where
  "point_x c i = c (2 * int i)"

definition point_y :: "(int \<Rightarrow> real) \<Rightarrow> nat \<Rightarrow> real" where
  "point_y c i = c (2 * int i + 1)"

definition fsum :: "arith \<Rightarrow> fval list \<Rightarrow> fval" where
  "fsum ar vs = foldl (add_f ar) (Fin 0) vs"

definition square :: "arith \<Rightarrow> fval \<Rightarrow> fval" where
  "square ar v = mul_f ar v v"

definition x_variance :: "arith \<Rightarrow> (int \<Rightarrow> real) \<Rightarrow> nat \<Rightarrow> fval" where
  "x_variance ar c P =
     div_f ar (fsum ar (map (\<lambda>i. square ar (Fin (point_x c i))) [0..<P])) (Fin (real P))"

definition y_variance :: "arith \<Rightarrow> (int \<Rightarrow> real) \<Rightarrow> nat \<Rightarrow> fval" where
  "y_variance ar c P =
     div_f ar (fsum ar (map (\<lambda>i. square ar (Fin (point_y c i))) [0..<P])) (Fin (real P))"

definition corrected_y_variance :: "arith \<Rightarrow> (int \<Rightarrow> real) \<Rightarrow> nat \<Rightarrow> fval" where
  "corrected_y_variance ar c P = to_float ar (mul_d ar (y_variance ar c P) (lit_d ar (13 / 10)))"

definition x_displacement :: "arith \<Rightarrow> (int \<Rightarrow> real) \<Rightarrow> nat \<Rightarrow> fval" where
  "x_displacement ar c P = fsum ar (map (\<lambda>i. Fin (point_x c i)) [0..<P])"

definition y_displacement :: "arith \<Rightarrow> (int \<Rightarrow> real) \<Rightarrow> nat \<Rightarrow> fval" where
  "y_displacement ar c P = fsum ar (map (\<lambda>i. Fin (point_y c i)) [0..<P])"

definition euclid :: "arith \<Rightarrow> fval \<Rightarrow> fval \<Rightarrow> fval \<Rightarrow> fval \<Rightarrow> fval" where
  "euclid ar x1 y1 x2 y2 =
     sqrt_f ar (add_f ar (square ar (sub_f ar x1 x2)) (square ar (sub_f ar y1 y2)))"

text \<open>
  The last recorded point of \<open>P\<close> points is the pair at the elements \<open>2 P - 2\<close> and
  \<open>2 P - 1\<close>; with no point this is the memory before the array.
\<close>

definition last_point_distance :: "arith \<Rightarrow> (int \<Rightarrow> real) \<Rightarrow> nat \<Rightarrow> fval" where
  "last_point_distance ar c P =
     euclid ar (Fin 0) (Fin 0) (Fin (c (2 * int P - 2))) (Fin (c (2 * int P - 1)))"

text \<open>The squared minimum rotation angle.\<close>

definition min_angle_squared :: "arith \<Rightarrow> fval" where
  "min_angle_squared ar = square ar (to_float ar (div_d ar (lit_d ar PI) (Fin 6)))"

subsection \<open>The circle\<close>

text \<open>
  With \<open>P\<close> points the ten sample points are the points \<open>j * (P div 10)\<close>. The diameter of
  a sample point is its greatest distance to a recorded point, \<open>greatest\<close> being taken from
  0 upwards. The estimated radius is the sum of the ten diameters divided by twice ten,
  the estimated diameter twice the estimated radius, the estimated centre the mean of the
  ten sample points. The deviation is the root of the mean squared difference between the
  distance of a point from the centre and the estimated radius.
\<close>

definition sample_index :: "nat \<Rightarrow> nat \<Rightarrow> nat" where
  "sample_index P j = j * (P div 10)"

definition center_distance :: "arith \<Rightarrow> (int \<Rightarrow> real) \<Rightarrow> fval \<Rightarrow> fval \<Rightarrow> nat \<Rightarrow> fval" where
  "center_distance ar c x y i = euclid ar x y (Fin (point_x c i)) (Fin (point_y c i))"

definition point_distance :: "arith \<Rightarrow> (int \<Rightarrow> real) \<Rightarrow> nat \<Rightarrow> nat \<Rightarrow> fval" where
  "point_distance ar c k i = center_distance ar c (Fin (point_x c k)) (Fin (point_y c k)) i"

definition greatest :: "fval list \<Rightarrow> fval" where
  "greatest vs = foldl (\<lambda>m v. if flt m v then v else m) (Fin 0) vs"

definition sample_diameter :: "arith \<Rightarrow> (int \<Rightarrow> real) \<Rightarrow> nat \<Rightarrow> nat \<Rightarrow> fval" where
  "sample_diameter ar c P j = greatest (map (point_distance ar c (sample_index P j)) [0..<P])"

definition est_radius :: "arith \<Rightarrow> (int \<Rightarrow> real) \<Rightarrow> nat \<Rightarrow> fval" where
  "est_radius ar c P =
     to_float ar (div_d ar (fsum ar (map (sample_diameter ar c P) [0..<10]))
                    (mul_d ar (Fin 10) (Fin 2)))"

definition est_diameter :: "arith \<Rightarrow> (int \<Rightarrow> real) \<Rightarrow> nat \<Rightarrow> fval" where
  "est_diameter ar c P = mul_d ar (est_radius ar c P) (Fin 2)"

definition est_center_x :: "arith \<Rightarrow> (int \<Rightarrow> real) \<Rightarrow> nat \<Rightarrow> fval" where
  "est_center_x ar c P =
     div_f ar (fsum ar (map (\<lambda>j. Fin (point_x c (sample_index P j))) [0..<10])) (Fin 10)"

definition est_center_y :: "arith \<Rightarrow> (int \<Rightarrow> real) \<Rightarrow> nat \<Rightarrow> fval" where
  "est_center_y ar c P =
     div_f ar (fsum ar (map (\<lambda>j. Fin (point_y c (sample_index P j))) [0..<10])) (Fin 10)"

definition radial_deviation :: "arith \<Rightarrow> (int \<Rightarrow> real) \<Rightarrow> nat \<Rightarrow> fval" where
  "radial_deviation ar c P =
     sqrt_f ar
       (div_f ar
          (fsum ar (map (\<lambda>i. square ar
                               (sub_f ar (center_distance ar c (est_center_x ar c P)
                                            (est_center_y ar c P) i)
                                  (est_radius ar c P)))
                      [0..<P]))
          (Fin (real P)))"

definition closure_distance :: "arith \<Rightarrow> (int \<Rightarrow> real) \<Rightarrow> nat \<Rightarrow> fval" where
  "closure_distance ar c P = point_distance ar c 0 (P - 1)"

text \<open>
  What \<open>greatest\<close> gives: \<open>m\<close> is 0 or a positive value of the list, and no value of the list
  is greater.
\<close>

definition is_greatest :: "fval list \<Rightarrow> fval \<Rightarrow> bool" where
  "is_greatest vs m =
     ((m = Fin 0 \<or> (m \<in> set vs \<and> flt (Fin 0) m)) \<and> (\<forall>v \<in> set vs. \<not> flt m v))"

text \<open>
  What an index of the loop over the points stands for. The maximum is tracked from the
  start value \<open>b\<close> with a strict comparison: the index is that of the first point at which
  the greatest coordinate occurs, if some coordinate exceeds \<open>b\<close>, and 0 if none does. The
  minimum is tracked likewise from above.
\<close>

definition tracked_max_index :: "real \<Rightarrow> (nat \<Rightarrow> real) \<Rightarrow> nat \<Rightarrow> int \<Rightarrow> bool" where
  "tracked_max_index b f n k =
     (if \<exists>i<n. b < f i
      then 0 \<le> k \<and> nat k < n \<and> (\<forall>i<n. f i \<le> f (nat k)) \<and> (\<forall>i<nat k. f i < f (nat k))
      else k = 0)"

definition tracked_min_index :: "real \<Rightarrow> (nat \<Rightarrow> real) \<Rightarrow> nat \<Rightarrow> int \<Rightarrow> bool" where
  "tracked_min_index b f n k =
     (if \<exists>i<n. f i < b
      then 0 \<le> k \<and> nat k < n \<and> (\<forall>i<n. f (nat k) \<le> f i) \<and> (\<forall>i<nat k. f (nat k) < f i)
      else k = 0)"

text \<open>
  The invariant of one tracked pair of the loop after \<open>n\<close> points: \<open>best\<close> is the extreme value
  so far, not beyond the start value \<open>b\<close>, and \<open>k\<close> is the index it was first seen at.
\<close>

definition max_tracked :: "real \<Rightarrow> (nat \<Rightarrow> real) \<Rightarrow> nat \<Rightarrow> real \<Rightarrow> int \<Rightarrow> bool" where
  "max_tracked b f n best k =
     (b \<le> best \<and> (\<forall>i<n. f i \<le> best)
      \<and> (if \<exists>i<n. b < f i
          then 0 \<le> k \<and> nat k < n \<and> f (nat k) = best \<and> (\<forall>i<nat k. f i < best)
          else best = b \<and> k = 0))"

definition min_tracked :: "real \<Rightarrow> (nat \<Rightarrow> real) \<Rightarrow> nat \<Rightarrow> real \<Rightarrow> int \<Rightarrow> bool" where
  "min_tracked b f n best k =
     (best \<le> b \<and> (\<forall>i<n. best \<le> f i)
      \<and> (if \<exists>i<n. f i < b
          then 0 \<le> k \<and> nat k < n \<and> f (nat k) = best \<and> (\<forall>i<nat k. best < f i)
          else best = b \<and> k = 0))"

section \<open>The quantities without rounding\<close>

text \<open>
  The same quantities as real numbers, for the examples: what the definitions above give
  in the arithmetic without rounding, when there is a point to take them of.
\<close>

definition exact_x_variance :: "(int \<Rightarrow> real) \<Rightarrow> nat \<Rightarrow> real" where
  "exact_x_variance c P = (\<Sum>i<P. (point_x c i)\<^sup>2) / real P"

definition exact_y_variance :: "(int \<Rightarrow> real) \<Rightarrow> nat \<Rightarrow> real" where
  "exact_y_variance c P = (\<Sum>i<P. (point_y c i)\<^sup>2) / real P"

definition exact_x_displacement :: "(int \<Rightarrow> real) \<Rightarrow> nat \<Rightarrow> real" where
  "exact_x_displacement c P = (\<Sum>i<P. point_x c i)"

definition exact_y_displacement :: "(int \<Rightarrow> real) \<Rightarrow> nat \<Rightarrow> real" where
  "exact_y_displacement c P = (\<Sum>i<P. point_y c i)"

definition exact_euclid :: "real \<Rightarrow> real \<Rightarrow> real \<Rightarrow> real \<Rightarrow> real" where
  "exact_euclid x1 y1 x2 y2 = sqrt ((x1 - x2)\<^sup>2 + (y1 - y2)\<^sup>2)"

definition exact_center_distance :: "(int \<Rightarrow> real) \<Rightarrow> real \<Rightarrow> real \<Rightarrow> nat \<Rightarrow> real" where
  "exact_center_distance c x y i = exact_euclid x y (point_x c i) (point_y c i)"

definition exact_point_distance :: "(int \<Rightarrow> real) \<Rightarrow> nat \<Rightarrow> nat \<Rightarrow> real" where
  "exact_point_distance c k i = exact_center_distance c (point_x c k) (point_y c k) i"

definition exact_sample_diameter :: "(int \<Rightarrow> real) \<Rightarrow> nat \<Rightarrow> nat \<Rightarrow> real" where
  "exact_sample_diameter c P j = Max ((exact_point_distance c (sample_index P j)) ` {..<P})"

definition exact_est_diameter :: "(int \<Rightarrow> real) \<Rightarrow> nat \<Rightarrow> real" where
  "exact_est_diameter c P = (\<Sum>j<10. exact_sample_diameter c P j) / 10"

definition exact_est_center_x :: "(int \<Rightarrow> real) \<Rightarrow> nat \<Rightarrow> real" where
  "exact_est_center_x c P = (\<Sum>j<10. point_x c (sample_index P j)) / 10"

definition exact_est_center_y :: "(int \<Rightarrow> real) \<Rightarrow> nat \<Rightarrow> real" where
  "exact_est_center_y c P = (\<Sum>j<10. point_y c (sample_index P j)) / 10"

definition exact_radial_deviation :: "(int \<Rightarrow> real) \<Rightarrow> nat \<Rightarrow> real" where
  "exact_radial_deviation c P =
     sqrt ((\<Sum>i<P. (exact_center_distance c (exact_est_center_x c P) (exact_est_center_y c P) i
                       - exact_est_diameter c P / 2)\<^sup>2) / real P)"

definition exact_closure_distance :: "(int \<Rightarrow> real) \<Rightarrow> nat \<Rightarrow> real" where
  "exact_closure_distance c P = exact_point_distance c 0 (P - 1)"

section \<open>Example states\<close>

text \<open>A cache that holds the one point \<open>(x, y)\<close>, with the roll angle \<open>roll\<close>.\<close>

definition single_point :: "real \<Rightarrow> real \<Rightarrow> real \<Rightarrow> gesture_state" where
  "single_point x y roll =
     \<lparr>gesture_cache = (gesture_cache gesture_init)(0 := x, 1 := y), gesture_cache_offset = 2,
      gesture_roll_angle = Fin roll\<rparr>"

text \<open>
  A controller that has finished the sync at time 3001 with the reference sum 100, with the
  given current sum, lock flags and cache offset; and a sample at rest.
\<close>

definition synced_state :: "int \<Rightarrow> bool \<Rightarrow> bool \<Rightarrow> int \<Rightarrow> controller_state" where
  "synced_state current l toggle offset =
     controller_init
       \<lparr>gesture := gesture_init\<lparr>gesture_cache_offset := offset\<rparr>,
        emgSum := current, emgSync := 100, isEMGSynced := True, lock_toggle := toggle,
        locked := l, timeConnected := 1\<rparr>"

definition rest_sample :: imu_sample where
  "rest_sample = \<lparr>local_2_1 = 0, local_2_0 = 0, roll_angle = Fin 0\<rparr>"

text \<open>
  EMG rows: one strong channel, and silence. The run \<open>sync_run\<close> is a sync with one strong
  sample at time 1, ten silent ones, and the first sample after the sync time.
\<close>

definition strong_emg :: "8 word list" where
  "strong_emg = [100, 0, 0, 0, 0, 0, 0, 0]"

definition silent_emg :: "8 word list" where
  "silent_emg = [0, 0, 0, 0, 0, 0, 0, 0]"

definition sync_run :: "input list" where
  "sync_run = EMG strong_emg 1 1 # replicate 10 (EMG silent_emg 2 2) @ [EMG silent_emg 3001 3001]"

text \<open>
  The sum \<^verbatim>\<open>updateCache\<close> takes over the rows, and the controller during the sync that
  started at time 1 with the rows \<open>rows\<close>, the sum \<open>tot\<close> and the reference 100.
\<close>

definition row_sum :: "8 word list list \<Rightarrow> int" where
  "row_sum rows = sum_list (map (\<lambda>row. sum_list (map (\<lambda>v. \<bar>sint v\<bar>) row)) rows)"

definition sync_rows :: "8 word list list \<Rightarrow> int \<Rightarrow> controller_state" where
  "sync_rows rows tot =
     controller_init\<lparr>emgCache := rows, emgSum := tot, emgSync := 100, timeConnected := 1\<rparr>"

text \<open>
  A cache whose points alternate between \<open>(0, 0)\<close> (even points) and \<open>(d, 0)\<close> (odd points),
  and the state that holds \<open>n\<close> of them.
\<close>

definition two_cluster :: "real \<Rightarrow> int \<Rightarrow> real" where
  "two_cluster d = (\<lambda>i. if i mod 4 = 2 then d else 0)"

definition two_cluster_state :: "real \<Rightarrow> int \<Rightarrow> gesture_state" where
  "two_cluster_state d n =
     \<lparr>gesture_cache = two_cluster d, gesture_cache_offset = 2 * n, gesture_roll_angle = Fin 0\<rparr>"

text \<open>
  Eleven points around the rectangle with the corners \<open>(0, 0)\<close>, \<open>(0, 1)\<close>, \<open>(0.75, 1)\<close>
  and \<open>(0.75, 0)\<close>, in this order and back to the start: points 0 to 2 and 10 at the first
  corner, 3 and 4 at the second, 5 to 7 at the third, 8 and 9 at the fourth.
\<close>

definition rectangle_path :: "int \<Rightarrow> real" where
  "rectangle_path k =
     (if even k then (if 10 \<le> k \<and> k \<le> 18 then 3 / 4 else 0)
      else (if 7 \<le> k \<and> k \<le> 15 then 1 else 0))"

definition rectangle_state :: gesture_state where
  "rectangle_state =
     \<lparr>gesture_cache = rectangle_path, gesture_cache_offset = 22, gesture_roll_angle = Fin 0\<rparr>"

section \<open>The gesture cache\<close>

lemma push_all_offset:
  "even (gesture_cache_offset st)
   \<Longrightarrow> gesture_cache_offset st + 2 * int (length ps) \<le> GESTURE_CACHE_SIZE
   \<Longrightarrow> gesture_cache_offset (push_all ps st) = gesture_cache_offset st + 2 * int (length ps)"
proof (induction ps arbitrary: st)
  case Nil
  then show ?case by simp
next
  case (Cons p ps)
  obtain x y r where p: "p = (x, y, r)" by (cases p)
  let ?st = "updateGestureCache x y r st"
  from Cons.prems have lt: "gesture_cache_offset st < GESTURE_CACHE_SIZE" by simp
  then have off: "gesture_cache_offset ?st = gesture_cache_offset st + 2"
    by (simp add: updateGestureCache_def Let_def)
  with Cons.prems have "even (gesture_cache_offset ?st)"
    and "gesture_cache_offset ?st + 2 * int (length ps) \<le> GESTURE_CACHE_SIZE" by simp_all
  then have "gesture_cache_offset (push_all ps ?st) = gesture_cache_offset ?st + 2 * int (length ps)"
    by (rule Cons.IH)
  with off p show ?case by simp
qed

lemma push_all_full:
  "gestureBufferFull st \<Longrightarrow>
   push_all ps st =
     st\<lparr>gesture_roll_angle := (if ps = [] then gesture_roll_angle st else snd (snd (last ps)))\<rparr>"
proof (induction ps arbitrary: st)
  case Nil
  then show ?case by simp
next
  case (Cons p ps)
  obtain x y r where p: "p = (x, y, r)" by (cases p)
  from Cons.prems have u: "updateGestureCache x y r st = st\<lparr>gesture_roll_angle := r\<rparr>"
    by (simp add: updateGestureCache_def gestureBufferFull_def)
  have "gestureBufferFull (st\<lparr>gesture_roll_angle := r\<rparr>)"
    using Cons.prems by (simp add: gestureBufferFull_def)
  from Cons.IH [OF this] p u show ?case by simp
qed

text \<open>
  C5. On a cache whose offset is even and within the array: a push into a cache that is not
  full stores \<open>asin (clip x (-0.99999) 0.99999)\<close> and \<open>asin (clip y (-0.99999) 0.99999)\<close> at
  the offset and the element after it, leaves every other element alone and advances the
  offset by 2. Pushing \<open>GESTURE_CACHE_SIZE / 2\<close> times into an empty cache makes
  \<open>gestureBufferFull\<close> true. A push into a full cache leaves the elements, the offset and
  the fill state as they are. In both cases the roll angle is overwritten. A reset sets
  the offset and the roll angle to 0, whatever the state was.
\<close>

theorem cache_operations:
  "(cache_inv st \<and> \<not> gestureBufferFull st \<longrightarrow>
      gesture_cache (updateGestureCache x y r st) (gesture_cache_offset st)
        = arcsin (clip x (- 0.99999) 0.99999)
    \<and> gesture_cache (updateGestureCache x y r st) (gesture_cache_offset st + 1)
        = arcsin (clip y (- 0.99999) 0.99999)
    \<and> (\<forall>i. i \<noteq> gesture_cache_offset st \<and> i \<noteq> gesture_cache_offset st + 1 \<longrightarrow>
           gesture_cache (updateGestureCache x y r st) i = gesture_cache st i)
    \<and> gesture_cache_offset (updateGestureCache x y r st) = gesture_cache_offset st + 2
    \<and> gesture_roll_angle (updateGestureCache x y r st) = r)
   \<and> (gesture_cache_offset st = 0 \<and> int (length ps) = GESTURE_CACHE_SIZE div 2 \<longrightarrow>
        gestureBufferFull (push_all ps st))
   \<and> (gestureBufferFull st \<longrightarrow>
        gesture_cache (updateGestureCache x y r st) = gesture_cache st
      \<and> gesture_cache_offset (updateGestureCache x y r st) = gesture_cache_offset st
      \<and> gestureBufferFull (updateGestureCache x y r st)
      \<and> gesture_roll_angle (updateGestureCache x y r st) = r)
   \<and> gesture_cache_offset (resetGestureCache st) = 0
   \<and> gesture_roll_angle (resetGestureCache st) = Fin 0"
proof -
  have a: "gesture_cache_offset st < GESTURE_CACHE_SIZE"
    if "cache_inv st" "\<not> gestureBufferFull st"
    using that by (simp add: cache_inv_def gestureBufferFull_def)
  have b: "gestureBufferFull (push_all ps st)"
    if "gesture_cache_offset st = 0" "int (length ps) = GESTURE_CACHE_SIZE div 2"
  proof -
    have "gesture_cache_offset (push_all ps st) = gesture_cache_offset st + 2 * int (length ps)"
      using that by (intro push_all_offset) (simp_all add: GESTURE_CACHE_SIZE_def)
    with that show ?thesis by (simp add: gestureBufferFull_def GESTURE_CACHE_SIZE_def)
  qed
  show ?thesis
    using a b
    by (auto simp: updateGestureCache_def Let_def gestureBufferFull_def resetGestureCache_def)
qed

theorem cache_operations_witness:
  "gesture_cache_offset (updateGestureCache 2 (1 / 2) (Fin 1) gesture_init) = 2
   \<and> gesture_cache (updateGestureCache 2 (1 / 2) (Fin 1) gesture_init) 0 = arcsin 0.99999
   \<and> gesture_cache (updateGestureCache 2 (1 / 2) (Fin 1) gesture_init) 1 = arcsin (1 / 2)
   \<and> gestureBufferFull (push_all (replicate 64 (0, 0, Fin 0)) gesture_init)
   \<and> gesture_cache_offset
        (updateGestureCache 2 (1 / 2) (Fin 1) (gesture_init\<lparr>gesture_cache_offset := 128\<rparr>)) = 128
   \<and> gesture_roll_angle
        (updateGestureCache 2 (1 / 2) (Fin 1) (gesture_init\<lparr>gesture_cache_offset := 128\<rparr>)) = Fin 1"
  using cache_operations [of gesture_init 2 "1 / 2" "Fin 1" "replicate 64 (0, 0, Fin 0)"]
    cache_operations [of "gesture_init\<lparr>gesture_cache_offset := 128\<rparr>" 2 "1 / 2" "Fin 1" "[]"]
  by (simp add: cache_inv_def gestureBufferFull_def gesture_init_def GESTURE_CACHE_SIZE_def
      clip_def)

text \<open>
  C6. The offset is even and lies between 0 and \<open>GESTURE_CACHE_SIZE\<close>: this holds at start
  and is kept by \<open>updateGestureCache\<close>, \<open>resetGestureCache\<close> and \<open>processCacheData\<close>
  (\<open>gestureBufferFull\<close> only reads the state). Once the cache is full no run of pushes
  changes the offset.
\<close>

theorem offset_invariant:
  "cache_inv gesture_init
   \<and> (cache_inv st \<longrightarrow> cache_inv (updateGestureCache x y r st))
   \<and> cache_inv (resetGestureCache st)
   \<and> cache_inv (snd (processCacheData ar st))
   \<and> (cache_inv st \<and> gestureBufferFull st \<longrightarrow>
        gesture_cache_offset (push_all ps st) = gesture_cache_offset st)"
proof -
  have "cache_inv (updateGestureCache x y r st)" if "cache_inv st"
    using that by (auto simp: cache_inv_def updateGestureCache_def Let_def GESTURE_CACHE_SIZE_def)
  moreover have "gesture_cache_offset (push_all ps st) = gesture_cache_offset st"
    if "gestureBufferFull st"
    using push_all_full [OF that, of ps] by simp
  ultimately show ?thesis
    by (simp add: cache_inv_def gesture_init_def resetGestureCache_def processCacheData_def
        GESTURE_CACHE_SIZE_def)
qed

theorem offset_invariant_witness:
  "cache_inv (updateGestureCache 0 0 (Fin 0) gesture_init)
   \<and> gesture_cache_offset
        (push_all [(1, 1, Fin 1), (0, 0, Fin 0)] (gesture_init\<lparr>gesture_cache_offset := 128\<rparr>)) = 128"
  using offset_invariant [of gesture_init 0 0 "Fin 0" ar "[]" for ar]
    offset_invariant
      [of "gesture_init\<lparr>gesture_cache_offset := 128\<rparr>" 0 0 "Fin 0" ar "[(1, 1, Fin 1), (0, 0, Fin 0)]" for ar]
  by (simp add: cache_inv_def gestureBufferFull_def gesture_init_def GESTURE_CACHE_SIZE_def)

section \<open>The classifier on its statistics\<close>

lemma flt_NaN [simp]: "flt x NaN = False" "flt NaN x = False"
  by (cases x; simp)+

lemma fle_NaN [simp]: "fle x NaN = False" "fle NaN x = False"
  by (cases x; simp)+

lemma flt_asym: "flt x y \<Longrightarrow> \<not> flt y x"
  by (cases x; cases y; simp)

lemma exact_arith_simps [simp]:
  "add_f exact_arith = fadd" "sub_f exact_arith = fsub" "mul_f exact_arith = fmul"
  "div_f exact_arith = fdiv" "mul_d exact_arith = fmul" "div_d exact_arith = fdiv"
  "sqrt_f exact_arith = fsqrt" "to_float exact_arith v = v" "lit_d exact_arith r = Fin r"
  by (simp_all add: exact_arith_def)

lemma fold_upt_Suc: "fold f [0..<Suc n] a = f n (fold f [0..<n] a)"
  by simp

lemma fsum_upt_Suc:
  "fsum ar (map g [0..<Suc n]) = add_f ar (fsum ar (map g [0..<n])) (g n)"
  by (simp add: fsum_def)

lemma fsum_Nil: "fsum ar [] = Fin 0"
  by (simp add: fsum_def)

lemma sqr_square: "sqr ar v = square ar v"
  by (simp add: sqr_def square_def)

lemma stats_loop_sums:
  "fold (stats_step ar c) [0..<n]
      \<lparr>x_total = Fin 0, y_total = Fin 0, x_deviation = Fin 0, y_deviation = Fin 0\<rparr>
     = \<lparr>x_total = x_displacement ar c n, y_total = y_displacement ar c n,
        x_deviation = fsum ar (map (\<lambda>i. square ar (Fin (point_x c i))) [0..<n]),
        y_deviation = fsum ar (map (\<lambda>i. square ar (Fin (point_y c i))) [0..<n])\<rparr>"
proof (induction n)
  case 0
  then show ?case by (simp add: x_displacement_def y_displacement_def fsum_Nil)
next
  case (Suc n)
  show ?case
    unfolding fold_upt_Suc Suc x_displacement_def y_displacement_def fsum_upt_Suc
    by (simp add: stats_step_def point_x_def point_y_def sqr_square)
qed

lemma stats_loop_eq:
  "stats_loop ar c (int P) =
     \<lparr>x_total = x_displacement ar c P, y_total = y_displacement ar c P,
      x_deviation = fsum ar (map (\<lambda>i. square ar (Fin (point_x c i))) [0..<P]),
      y_deviation = fsum ar (map (\<lambda>i. square ar (Fin (point_y c i))) [0..<P])\<rparr>"
  by (simp add: stats_loop_def stats_loop_sums)

lemma x_dev_eq: "x_dev ar c (int P) = x_variance ar c P"
  by (simp add: x_dev_def stats_loop_eq x_variance_def)

lemma y_dev_eq: "y_dev ar c (int P) = corrected_y_variance ar c P"
  by (simp add: y_dev_def stats_loop_eq y_variance_def corrected_y_variance_def
      Y_DEVIATION_CORRECTION_def)

lemma relation_eq:
  "relation ar c (int P) = div_f ar (x_variance ar c P) (corrected_y_variance ar c P)"
  by (simp add: relation_def x_dev_eq y_dev_eq)

lemma euclid_eq: "sqrt_f ar (getSqrPointDist ar x1 y1 x2 y2) = euclid ar x1 y1 x2 y2"
  by (simp add: getSqrPointDist_def sqr_square euclid_def)

lemma distance_eq: "distance ar c (int P) = last_point_distance ar c P"
  by (simp add: distance_def last_point_distance_def euclid_eq)

lemma rotation_test_eq:
  "rotation_test ar c (int P) roll =
     (if fle (x_variance ar c P) (lit_d ar (15 / 100))
         \<and> fle (corrected_y_variance ar c P) (lit_d ar (15 / 100))
         \<and> flt (min_angle_squared ar) (square ar roll)
      then Some (if flt roll (Fin 0) then ARM_ROTATE_CW else ARM_ROTATE_CCW) else None)"
  by (simp add: rotation_test_def x_dev_eq y_dev_eq sqr_square fgt_def min_angle_squared_def
      ROTATION_MIN_ANGLE_def ROTATION_MAX_VARIANCE_def)

lemma straight_test_eq:
  "straight_test ar c (int P) =
     (if flt (corrected_y_variance ar c P) (x_variance ar c P)
         \<and> flt (div_d ar (Fin 1) (lit_d ar (5 / 10)))
               (div_f ar (x_variance ar c P) (corrected_y_variance ar c P))
         \<and> fle (lit_d ar (3 / 10)) (last_point_distance ar c P)
      then (if flt (Fin 0) (x_displacement ar c P) then ARM_RIGHT else ARM_LEFT)
      else if flt (x_variance ar c P) (corrected_y_variance ar c P)
         \<and> flt (div_f ar (x_variance ar c P) (corrected_y_variance ar c P)) (lit_d ar (5 / 10))
         \<and> fle (lit_d ar (3 / 10)) (last_point_distance ar c P)
      then (if flt (Fin 0) (y_displacement ar c P) then ARM_UP else ARM_DOWN)
      else ARM_UNKNOWN)"
  by (simp add: straight_test_def x_dev_eq y_dev_eq relation_eq distance_eq stats_loop_eq
      fgt_def fge_def STRAIGHT_MAX_RELATION_def STRAIGHT_MIN_DISTANCE_def)

lemma processCacheData_label:
  "num_points_of st = int P \<Longrightarrow>
   fst (processCacheData ar st) = classify ar (gesture_cache st) (int P) (gesture_roll_angle st)"
  by (simp add: processCacheData_def)

lemma circle_test_few: "P < 10 \<Longrightarrow> circle_test ar c (int P) = None"
  by (simp add: circle_test_def GESTURE_CIRCLE_SAMPLES_def signed_divide_int_def)

lemma classify_no_circle:
  "circle_test ar c n = None \<Longrightarrow>
   classify ar c n roll =
     (case rotation_test ar c n roll of Some g \<Rightarrow> g | None \<Rightarrow> straight_test ar c n)"
  by (simp add: classify_def)

lemma straight_test_labels:
  "straight_test ar c n \<in> {ARM_RIGHT, ARM_LEFT, ARM_UP, ARM_DOWN, ARM_UNKNOWN}"
  by (simp add: straight_test_def)

lemma one_point_values:
  "x_variance ar c (Suc 0) = div_f ar (add_f ar (Fin 0) (mul_f ar (Fin (c 0)) (Fin (c 0)))) (Fin 1)"
  "y_variance ar c (Suc 0) = div_f ar (add_f ar (Fin 0) (mul_f ar (Fin (c 1)) (Fin (c 1)))) (Fin 1)"
  "x_displacement ar c (Suc 0) = add_f ar (Fin 0) (Fin (c 0))"
  "y_displacement ar c (Suc 0) = add_f ar (Fin 0) (Fin (c 1))"
  "last_point_distance ar c (Suc 0) = euclid ar (Fin 0) (Fin 0) (Fin (c 0)) (Fin (c 1))"
  by (simp_all add: x_variance_def y_variance_def x_displacement_def y_displacement_def
      last_point_distance_def point_x_def point_y_def fsum_def square_def)

lemma sqrt_quarter: "sqrt (1/4) = 1/2"
  by (simp add: real_sqrt_divide)

lemma single_point_simps:
  "gesture_cache (single_point x y roll) 0 = x" "gesture_cache (single_point x y roll) 1 = y"
  "gesture_roll_angle (single_point x y roll) = Fin roll"
  "num_points_of (single_point x y roll) = 1"
  by (simp_all add: single_point_def num_points_of_def signed_divide_int_def)

lemma exact_min_angle: "min_angle_squared exact_arith = Fin ((PI / 6) * (PI / 6))"
  by (simp add: min_angle_squared_def square_def)

lemma PI_bounds: "0 < (PI / 6) * (PI / 6)" "(PI / 6) * (PI / 6) < 1"
  by (simp_all add: PI_def)

lemma empty_cache_unknown:
  "div_f ar (Fin 0) (Fin 0) = NaN \<Longrightarrow> classify ar c 0 roll = ARM_UNKNOWN"
proof -
  assume z: "div_f ar (Fin 0) (Fin 0) = NaN"
  have xv: "x_variance ar c 0 = NaN"
    by (simp add: x_variance_def fsum_Nil z)
  have "circle_test ar c (int 0) = None" by (rule circle_test_few) simp
  moreover have "rotation_test ar c (int 0) roll = None"
    unfolding rotation_test_eq by (simp add: xv)
  moreover have "straight_test ar c (int 0) = ARM_UNKNOWN"
    unfolding straight_test_eq by (simp add: xv)
  ultimately show ?thesis by (simp add: classify_def)
qed

text \<open>
  The cascade after a circle stage that does not return, on the quantities of the
  specification.
\<close>

lemma classify_cascade:
  "circle_test ar c (int P) = None \<Longrightarrow>
   classify ar c (int P) roll =
     (if fle (x_variance ar c P) (lit_d ar (15 / 100))
         \<and> fle (corrected_y_variance ar c P) (lit_d ar (15 / 100))
         \<and> flt (min_angle_squared ar) (square ar roll)
      then (if flt roll (Fin 0) then ARM_ROTATE_CW else ARM_ROTATE_CCW)
      else if flt (corrected_y_variance ar c P) (x_variance ar c P)
         \<and> flt (div_d ar (Fin 1) (lit_d ar (5 / 10)))
               (div_f ar (x_variance ar c P) (corrected_y_variance ar c P))
         \<and> fle (lit_d ar (3 / 10)) (last_point_distance ar c P)
      then (if flt (Fin 0) (x_displacement ar c P) then ARM_RIGHT else ARM_LEFT)
      else if flt (x_variance ar c P) (corrected_y_variance ar c P)
         \<and> flt (div_f ar (x_variance ar c P) (corrected_y_variance ar c P)) (lit_d ar (5 / 10))
         \<and> fle (lit_d ar (3 / 10)) (last_point_distance ar c P)
      then (if flt (Fin 0) (y_displacement ar c P) then ARM_UP else ARM_DOWN)
      else ARM_UNKNOWN)"
  unfolding classify_no_circle rotation_test_eq straight_test_eq
  by (simp only: option.case if_distrib [of "case_option _ _"] if_True if_False split: if_split)

lemma single_point_values:
  "x_variance exact_arith (gesture_cache (single_point x y roll)) (Suc 0) = Fin (x * x)"
  "y_variance exact_arith (gesture_cache (single_point x y roll)) (Suc 0) = Fin (y * y)"
  "corrected_y_variance exact_arith (gesture_cache (single_point x y roll)) (Suc 0)
     = Fin (y * y * (13 / 10))"
  "x_displacement exact_arith (gesture_cache (single_point x y roll)) (Suc 0) = Fin x"
  "y_displacement exact_arith (gesture_cache (single_point x y roll)) (Suc 0) = Fin y"
  "last_point_distance exact_arith (gesture_cache (single_point x y roll)) (Suc 0)
     = Fin (sqrt (x * x + y * y))"
  by (simp_all add: one_point_values corrected_y_variance_def single_point_simps euclid_def
      square_def not_less add_nonneg_nonneg)

lemma single_point_circle:
  "circle_test ar (gesture_cache (single_point x y roll)) (int (Suc 0)) = None"
  by (rule circle_test_few) simp

lemma single_point_label:
  "fst (processCacheData exact_arith (single_point x y roll)) =
     (if x * x \<le> 15 / 100 \<and> y * y * (13 / 10) \<le> 15 / 100 \<and> (PI / 6) * (PI / 6) < roll * roll
      then (if roll < 0 then ARM_ROTATE_CW else ARM_ROTATE_CCW)
      else if y * y * (13 / 10) < x * x
         \<and> flt (Fin 2) (fdiv (Fin (x * x)) (Fin (y * y * (13 / 10))))
         \<and> 3 / 10 \<le> sqrt (x * x + y * y)
      then (if 0 < x then ARM_RIGHT else ARM_LEFT)
      else if x * x < y * y * (13 / 10)
         \<and> flt (fdiv (Fin (x * x)) (Fin (y * y * (13 / 10)))) (Fin (5 / 10))
         \<and> 3 / 10 \<le> sqrt (x * x + y * y)
      then (if 0 < y then ARM_UP else ARM_DOWN)
      else ARM_UNKNOWN)"
proof -
  let ?c = "gesture_cache (single_point x y roll)"
  have "fst (processCacheData exact_arith (single_point x y roll))
          = classify exact_arith ?c (int (Suc 0)) (Fin roll)"
    by (simp add: processCacheData_def single_point_simps)
  also note classify_cascade [OF single_point_circle]
  finally show ?thesis
    by (simp add: single_point_values exact_min_angle square_def cong: if_cong)
qed

lemma single_point_right:
  "fst (processCacheData exact_arith (single_point (1 / 2) 0 0)) = ARM_RIGHT"
  by (simp add: single_point_label sqrt_quarter)

text \<open>
  C1, as the code has it. With no point the two variances are the quotient of 0 by 0;
  where the arithmetic gives a NaN for it, as IEEE 754 does, nothing traps and the label is
  \<open>ARM_UNKNOWN\<close>. With one point \<open>(x, y)\<close> the circle stage is skipped and the rotation and
  the straight-line test run on the variances \<open>(0 + x * x) / 1\<close> and \<open>(0 + y * y) / 1\<close> of
  that point: the label is \<open>ARM_UNKNOWN\<close> only when both reject.
\<close>

theorem near_empty_cache:
  "(div_f ar (Fin 0) (Fin 0) = NaN \<and> num_points_of st = 0 \<longrightarrow>
      fst (processCacheData ar st) = ARM_UNKNOWN)
   \<and> (num_points_of st = 1 \<longrightarrow>
      (let c = gesture_cache st; roll = gesture_roll_angle st;
           xv = div_f ar (add_f ar (Fin 0) (mul_f ar (Fin (c 0)) (Fin (c 0)))) (Fin 1);
           yv = div_f ar (add_f ar (Fin 0) (mul_f ar (Fin (c 1)) (Fin (c 1)))) (Fin 1);
           cy = to_float ar (mul_d ar yv (lit_d ar (13 / 10)));
           rel = div_f ar xv cy;
           d = euclid ar (Fin 0) (Fin 0) (Fin (c 0)) (Fin (c 1))
       in circle_test ar c 1 = None
        \<and> x_variance ar c 1 = xv \<and> y_variance ar c 1 = yv
        \<and> fst (processCacheData ar st) =
            (if fle xv (lit_d ar (15 / 100)) \<and> fle cy (lit_d ar (15 / 100))
                \<and> flt (min_angle_squared ar) (square ar roll)
             then (if flt roll (Fin 0) then ARM_ROTATE_CW else ARM_ROTATE_CCW)
             else if flt cy xv \<and> flt (div_d ar (Fin 1) (lit_d ar (5 / 10))) rel
                \<and> fle (lit_d ar (3 / 10)) d
             then (if flt (Fin 0) (add_f ar (Fin 0) (Fin (c 0))) then ARM_RIGHT else ARM_LEFT)
             else if flt xv cy \<and> flt rel (lit_d ar (5 / 10)) \<and> fle (lit_d ar (3 / 10)) d
             then (if flt (Fin 0) (add_f ar (Fin 0) (Fin (c 1))) then ARM_UP else ARM_DOWN)
             else ARM_UNKNOWN)))"
proof (intro conjI impI)
  assume "div_f ar (Fin 0) (Fin 0) = NaN \<and> num_points_of st = 0"
  then show "fst (processCacheData ar st) = ARM_UNKNOWN"
    by (simp add: processCacheData_def empty_cache_unknown)
next
  assume np: "num_points_of st = 1"
  have nc: "circle_test ar (gesture_cache st) (int (Suc 0)) = None"
    by (rule circle_test_few) simp
  have "fst (processCacheData ar st)
          = classify ar (gesture_cache st) (int (Suc 0)) (gesture_roll_angle st)"
    using np by (simp add: processCacheData_def)
  also note classify_cascade [OF nc]
  finally show "let c = gesture_cache st; roll = gesture_roll_angle st;
           xv = div_f ar (add_f ar (Fin 0) (mul_f ar (Fin (c 0)) (Fin (c 0)))) (Fin 1);
           yv = div_f ar (add_f ar (Fin 0) (mul_f ar (Fin (c 1)) (Fin (c 1)))) (Fin 1);
           cy = to_float ar (mul_d ar yv (lit_d ar (13 / 10)));
           rel = div_f ar xv cy;
           d = euclid ar (Fin 0) (Fin 0) (Fin (c 0)) (Fin (c 1))
       in circle_test ar c 1 = None
        \<and> x_variance ar c 1 = xv \<and> y_variance ar c 1 = yv
        \<and> fst (processCacheData ar st) =
            (if fle xv (lit_d ar (15 / 100)) \<and> fle cy (lit_d ar (15 / 100))
                \<and> flt (min_angle_squared ar) (square ar roll)
             then (if flt roll (Fin 0) then ARM_ROTATE_CW else ARM_ROTATE_CCW)
             else if flt cy xv \<and> flt (div_d ar (Fin 1) (lit_d ar (5 / 10))) rel
                \<and> fle (lit_d ar (3 / 10)) d
             then (if flt (Fin 0) (add_f ar (Fin 0) (Fin (c 0))) then ARM_RIGHT else ARM_LEFT)
             else if flt xv cy \<and> flt rel (lit_d ar (5 / 10)) \<and> fle (lit_d ar (3 / 10)) d
             then (if flt (Fin 0) (add_f ar (Fin 0) (Fin (c 1))) then ARM_UP else ARM_DOWN)
             else ARM_UNKNOWN)"
    using nc by (simp add: Let_def one_point_values corrected_y_variance_def cong: if_cong)
qed

text \<open>
  A cache holding the single point \<open>(1/2, 0)\<close>, with the roll angle 0. The x variance is
  \<open>1/4\<close>, the corrected y variance is 0, the relation is the quotient of \<open>1/4\<close> by 0, and the
  label is \<open>ARM_RIGHT\<close>. Every number here is a binary fraction that the target computes
  as it stands.
\<close>

theorem near_empty_cache_counterexample:
  "num_points_of (single_point (1 / 2) 0 0) = 1
   \<and> fst (processCacheData exact_arith (single_point (1 / 2) 0 0)) = ARM_RIGHT
   \<and> x_dev exact_arith (gesture_cache (single_point (1 / 2) 0 0)) 1 = Fin (1 / 4)
   \<and> y_dev exact_arith (gesture_cache (single_point (1 / 2) 0 0)) 1 = Fin 0
   \<and> relation exact_arith (gesture_cache (single_point (1 / 2) 0 0)) 1 = PInf"
proof -
  let ?c = "gesture_cache (single_point (1 / 2) 0 0)"
  have xd: "x_dev exact_arith ?c 1 = Fin (1 / 4)"
    using x_dev_eq [of exact_arith ?c "Suc 0"] by (simp add: single_point_values)
  moreover have yd: "y_dev exact_arith ?c 1 = Fin 0"
    using y_dev_eq [of exact_arith ?c "Suc 0"] by (simp add: single_point_values)
  ultimately show ?thesis
    by (simp add: single_point_simps relation_def single_point_right)
qed

theorem near_empty_cache_witness:
  "fst (processCacheData exact_arith gesture_init) = ARM_UNKNOWN
   \<and> fst (processCacheData exact_arith (single_point (- 1 / 2) 0 0)) = ARM_LEFT"
proof -
  have "num_points_of gesture_init = 0"
    by (simp add: num_points_of_def gesture_init_def)
  then show ?thesis
    using near_empty_cache [of exact_arith gesture_init]
      near_empty_cache [of exact_arith "single_point (- 1 / 2) 0 0"]
    by (simp add: Let_def single_point_simps exact_min_angle square_def euclid_def sqrt_quarter)
qed

text \<open>
  C3. When the circle stage does not return, the label is a rotation exactly when the
  x variance (the sum of the squared x values divided by the number of points) is at most
  0.15, the y variance times 1.3 is at most 0.15, and the squared roll angle exceeds the
  squared minimum angle \<open>PI/6\<close>; a negative roll angle then gives \<open>ARM_ROTATE_CW\<close>, a
  positive one \<open>ARM_ROTATE_CCW\<close>. Sums, squares, quotients and products are those of the
  arithmetic; the constants are the \<^verbatim>\<open>double\<close>s of the literals.
\<close>

theorem rotation_stage:
  "num_points_of st = int P \<Longrightarrow> circle_test ar (gesture_cache st) (int P) = None \<Longrightarrow>
   (let c = gesture_cache st; roll = gesture_roll_angle st; label = fst (processCacheData ar st);
        accepts = (fle (x_variance ar c P) (lit_d ar (15 / 100))
                   \<and> fle (to_float ar (mul_d ar (y_variance ar c P) (lit_d ar (13 / 10))))
                         (lit_d ar (15 / 100))
                   \<and> flt (min_angle_squared ar) (square ar roll))
    in (label \<in> {ARM_ROTATE_CW, ARM_ROTATE_CCW} \<longleftrightarrow> accepts)
     \<and> (label = ARM_ROTATE_CW \<longleftrightarrow> accepts \<and> flt roll (Fin 0))
     \<and> (accepts \<and> flt (Fin 0) roll \<longrightarrow> label = ARM_ROTATE_CCW))"
proof -
  assume np: "num_points_of st = int P"
    and nc: "circle_test ar (gesture_cache st) (int P) = None"
  define c where "c = gesture_cache st"
  define roll where "roll = gesture_roll_angle st"
  define accepts where "accepts \<longleftrightarrow> fle (x_variance ar c P) (lit_d ar (15 / 100))
      \<and> fle (to_float ar (mul_d ar (y_variance ar c P) (lit_d ar (13 / 10)))) (lit_d ar (15 / 100))
      \<and> flt (min_angle_squared ar) (square ar roll)"
  have rot: "rotation_test ar c (int P) roll =
      (if accepts then Some (if flt roll (Fin 0) then ARM_ROTATE_CW else ARM_ROTATE_CCW) else None)"
    unfolding accepts_def rotation_test_eq corrected_y_variance_def ..
  have lab: "fst (processCacheData ar st) =
      (case rotation_test ar c (int P) roll of Some g \<Rightarrow> g | None \<Rightarrow> straight_test ar c (int P))"
    using processCacheData_label [OF np] classify_no_circle [OF nc] unfolding c_def roll_def
    by simp
  have "(fst (processCacheData ar st) \<in> {ARM_ROTATE_CW, ARM_ROTATE_CCW} \<longleftrightarrow> accepts)
     \<and> (fst (processCacheData ar st) = ARM_ROTATE_CW \<longleftrightarrow> accepts \<and> flt roll (Fin 0))
     \<and> (accepts \<and> flt (Fin 0) roll \<longrightarrow> fst (processCacheData ar st) = ARM_ROTATE_CCW)"
    using straight_test_labels [of ar c "int P"] flt_asym [of "Fin 0" roll]
    by (auto simp: lab rot)
  then show ?thesis
    unfolding Let_def accepts_def c_def roll_def .
qed

theorem rotation_stage_witness:
  "fst (processCacheData exact_arith (single_point 0 0 1)) = ARM_ROTATE_CCW
   \<and> fst (processCacheData exact_arith (single_point 0 0 (- 1))) = ARM_ROTATE_CW"
proof -
  have np: "num_points_of (single_point 0 0 r) = int (Suc 0)" for r
    by (simp add: single_point_simps)
  show ?thesis
    using rotation_stage [OF np single_point_circle, of 1 exact_arith]
      rotation_stage [OF np single_point_circle, of "- 1" exact_arith] PI_bounds
    by (simp add: Let_def single_point_values single_point_simps exact_min_angle square_def)
qed

text \<open>
  C4. When neither the circle nor the rotation stage returns, with \<open>xv\<close> the x variance,
  \<open>cy\<close> the y variance times 1.3, the relation the quotient of \<open>xv\<close> by \<open>cy\<close> and \<open>d\<close> the
  distance of the last point from the origin: the label is right or left exactly when
  \<open>xv > cy\<close>, the relation exceeds \<open>1 / 0.5\<close> and \<open>d \<ge> 0.3\<close>, right when the summed x is
  positive; it is up or down exactly when \<open>cy > xv\<close>, the relation is below 0.5 and
  \<open>d \<ge> 0.3\<close>, up when the summed y is positive; it is \<open>ARM_UNKNOWN\<close> exactly when neither
  holds. Sums, squares, quotients, products and the root are those of the arithmetic; the
  constants are the \<^verbatim>\<open>double\<close>s of the literals.
\<close>

theorem straight_stage:
  "num_points_of st = int P \<Longrightarrow> circle_test ar (gesture_cache st) (int P) = None \<Longrightarrow>
   rotation_test ar (gesture_cache st) (int P) (gesture_roll_angle st) = None \<Longrightarrow>
   (let c = gesture_cache st; label = fst (processCacheData ar st);
        xv = x_variance ar c P;
        cy = to_float ar (mul_d ar (y_variance ar c P) (lit_d ar (13 / 10)));
        rel = div_f ar xv cy;
        d = last_point_distance ar c P;
        horizontal = (flt cy xv \<and> flt (div_d ar (Fin 1) (lit_d ar (5 / 10))) rel
                      \<and> fle (lit_d ar (3 / 10)) d);
        vertical = (flt xv cy \<and> flt rel (lit_d ar (5 / 10)) \<and> fle (lit_d ar (3 / 10)) d)
    in (label \<in> {ARM_RIGHT, ARM_LEFT} \<longleftrightarrow> horizontal)
     \<and> (label = ARM_RIGHT \<longleftrightarrow> horizontal \<and> flt (Fin 0) (x_displacement ar c P))
     \<and> (label \<in> {ARM_UP, ARM_DOWN} \<longleftrightarrow> vertical)
     \<and> (label = ARM_UP \<longleftrightarrow> vertical \<and> flt (Fin 0) (y_displacement ar c P))
     \<and> (label = ARM_UNKNOWN \<longleftrightarrow> \<not> horizontal \<and> \<not> vertical))"
proof -
  assume np: "num_points_of st = int P"
    and nc: "circle_test ar (gesture_cache st) (int P) = None"
    and nr: "rotation_test ar (gesture_cache st) (int P) (gesture_roll_angle st) = None"
  define c where "c = gesture_cache st"
  define xv where "xv = x_variance ar c P"
  define cy where "cy = to_float ar (mul_d ar (y_variance ar c P) (lit_d ar (13 / 10)))"
  define rel where "rel = div_f ar xv cy"
  define d where "d = last_point_distance ar c P"
  define horizontal where
    "horizontal \<longleftrightarrow> flt cy xv \<and> flt (div_d ar (Fin 1) (lit_d ar (5 / 10))) rel
       \<and> fle (lit_d ar (3 / 10)) d"
  define vertical where
    "vertical \<longleftrightarrow> flt xv cy \<and> flt rel (lit_d ar (5 / 10)) \<and> fle (lit_d ar (3 / 10)) d"
  have str: "straight_test ar c (int P) =
      (if horizontal then (if flt (Fin 0) (x_displacement ar c P) then ARM_RIGHT else ARM_LEFT)
       else if vertical then (if flt (Fin 0) (y_displacement ar c P) then ARM_UP else ARM_DOWN)
       else ARM_UNKNOWN)"
    unfolding horizontal_def vertical_def rel_def xv_def cy_def d_def straight_test_eq
      corrected_y_variance_def ..
  have excl: "\<not> (horizontal \<and> vertical)"
    using flt_asym [of cy xv] by (auto simp: horizontal_def vertical_def)
  have lab: "fst (processCacheData ar st) = straight_test ar c (int P)"
    using processCacheData_label [OF np] classify_no_circle [OF nc] nr unfolding c_def
    by simp
  have "(fst (processCacheData ar st) \<in> {ARM_RIGHT, ARM_LEFT} \<longleftrightarrow> horizontal)
     \<and> (fst (processCacheData ar st) = ARM_RIGHT
          \<longleftrightarrow> horizontal \<and> flt (Fin 0) (x_displacement ar c P))
     \<and> (fst (processCacheData ar st) \<in> {ARM_UP, ARM_DOWN} \<longleftrightarrow> vertical)
     \<and> (fst (processCacheData ar st) = ARM_UP
          \<longleftrightarrow> vertical \<and> flt (Fin 0) (y_displacement ar c P))
     \<and> (fst (processCacheData ar st) = ARM_UNKNOWN \<longleftrightarrow> \<not> horizontal \<and> \<not> vertical)"
    using excl by (auto simp: lab str)
  then show ?thesis
    unfolding Let_def horizontal_def vertical_def rel_def xv_def cy_def d_def c_def .
qed

theorem straight_stage_witness:
  "fst (processCacheData exact_arith (single_point (1 / 2) 0 0)) = ARM_RIGHT
   \<and> fst (processCacheData exact_arith (single_point 0 (- 1 / 2) 0)) = ARM_DOWN
   \<and> fst (processCacheData exact_arith (single_point 0 0 0)) = ARM_UNKNOWN"
proof -
  have np: "num_points_of (single_point x y 0) = int (Suc 0)" for x y
    by (simp add: single_point_simps)
  have nr: "rotation_test exact_arith (gesture_cache (single_point x y 0)) (int (Suc 0))
              (gesture_roll_angle (single_point x y 0)) = None" for x y
    unfolding rotation_test_eq using PI_bounds
    by (simp add: single_point_simps exact_min_angle square_def)
  show ?thesis
    using straight_stage [OF np single_point_circle nr, of "1 / 2" 0]
      straight_stage [OF np single_point_circle nr, of 0 "- 1 / 2"]
      straight_stage [OF np single_point_circle nr, of 0 0]
    by (auto simp add: Let_def single_point_values sqrt_quarter)
qed

section \<open>The circle stage\<close>

lemma flt_trans: "flt x y \<Longrightarrow> flt y z \<Longrightarrow> flt x z"
  by (cases x; cases y; cases z; simp)

lemma flt_irrefl: "\<not> flt x x"
  by (cases x; simp)

lemma fold_foldl: "fold (\<lambda>i a. f a (g i)) xs z = foldl f z (map g xs)"
  by (induction xs arbitrary: z) simp_all

lemma greatest_snoc:
  "greatest (vs @ [v]) = (if flt (greatest vs) v then v else greatest vs)"
  by (simp add: greatest_def)

lemma greatest_is_greatest: "is_greatest vs (greatest vs)"
proof (induction vs rule: rev_induct)
  case Nil
  then show ?case by (simp add: is_greatest_def greatest_def)
next
  case (snoc v vs)
  define m where "m = greatest vs"
  from snoc have m: "m = Fin 0 \<or> (m \<in> set vs \<and> flt (Fin 0) m)" "\<forall>u \<in> set vs. \<not> flt m u"
    by (simp_all add: is_greatest_def m_def)
  show ?case
  proof (cases "flt m v")
    case True
    from m(1) True have "flt (Fin 0) v" using flt_trans by blast
    moreover have "\<forall>u \<in> set vs. \<not> flt v u" using m(2) True flt_trans by blast
    ultimately show ?thesis
      using True by (simp add: greatest_snoc is_greatest_def flt_irrefl flip: m_def)
  next
    case False
    then show ?thesis
      using m by (auto simp add: greatest_snoc is_greatest_def simp flip: m_def)
  qed
qed

lemma max_distance_eq:
  "max_distance ar c (int P) x y (Fin 0)
     = greatest (map (center_distance ar c (Fin x) (Fin y)) [0..<P])"
proof -
  have "max_distance ar c (int P) x y (Fin 0)
          = fold (\<lambda>i d. if flt d (center_distance ar c (Fin x) (Fin y) i)
                         then center_distance ar c (Fin x) (Fin y) i else d) [0..<P] (Fin 0)"
    unfolding max_distance_def Let_def euclid_eq center_distance_def point_x_def point_y_def
      fgt_def
    by simp
  also have "\<dots> = foldl (\<lambda>m v. if flt m v then v else m) (Fin 0)
                     (map (center_distance ar c (Fin x) (Fin y)) [0..<P])"
    by (rule fold_foldl)
  finally show ?thesis by (simp add: greatest_def)
qed

lemma sample_loop_prefix:
  "k \<le> 10 \<Longrightarrow>
   fold (sample_step ar c (int P) (int s)) [0..<k] (replicate 10 (Fin 0), Fin 0, Fin 0) =
     (map (\<lambda>j. max_distance ar c (int P) (point_x c (j * s)) (point_y c (j * s)) (Fin 0)) [0..<k]
        @ replicate (10 - k) (Fin 0),
      fsum ar (map (\<lambda>j. Fin (point_x c (j * s))) [0..<k]),
      fsum ar (map (\<lambda>j. Fin (point_y c (j * s))) [0..<k]))"
proof (induction k)
  case 0
  then show ?case by (simp add: fsum_Nil)
next
  case (Suc k)
  then have k: "k < 10" by simp
  then have m: "10 - k = Suc (9 - k)" "10 - Suc k = 9 - k"
    by simp_all
  have idx: "c (2 * int k * int s) = point_x c (k * s)" "c (2 * int k * int s + 1) = point_y c (k * s)"
    by (simp_all add: point_x_def point_y_def mult.assoc)
  from Suc k have IH:
    "fold (sample_step ar c (int P) (int s)) [0..<k] (replicate 10 (Fin 0), Fin 0, Fin 0) =
     (map (\<lambda>j. max_distance ar c (int P) (point_x c (j * s)) (point_y c (j * s)) (Fin 0)) [0..<k]
        @ replicate (10 - k) (Fin 0),
      fsum ar (map (\<lambda>j. Fin (point_x c (j * s))) [0..<k]),
      fsum ar (map (\<lambda>j. Fin (point_y c (j * s))) [0..<k]))"
    by simp
  show ?case
    unfolding fold_upt_Suc fsum_upt_Suc IH
    by (simp add: sample_step_def Let_def idx m nth_append list_update_append)
qed

lemma sdiv_samples: "int P sdiv GESTURE_CIRCLE_SAMPLES = int (P div 10)"
proof (cases "P = 0")
  case True
  then show ?thesis by simp
next
  case False
  then have "sgn (int P) = 1" by simp
  then show ?thesis
    by (simp add: signed_divide_int_def GESTURE_CIRCLE_SAMPLES_def zdiv_int)
qed

lemma sample_loop_eq:
  "sample_loop ar c (int P) (int s) =
     (map (\<lambda>j. max_distance ar c (int P) (point_x c (j * s)) (point_y c (j * s)) (Fin 0)) [0..<10],
      fsum ar (map (\<lambda>j. Fin (point_x c (j * s))) [0..<10]),
      fsum ar (map (\<lambda>j. Fin (point_y c (j * s))) [0..<10]))"
  using sample_loop_prefix [of 10 ar c P s]
  by (simp add: sample_loop_def GESTURE_CIRCLE_SAMPLES_def)

lemma point_distance_fun:
  "point_distance ar c k = center_distance ar c (Fin (point_x c k)) (Fin (point_y c k))"
  by (rule ext) (simp add: point_distance_def)

lemma diameter_nth:
  "j < 10 \<Longrightarrow>
   sample_point_diameters ar c (int P) (int (P div 10)) ! j = sample_diameter ar c P j"
  by (simp add: sample_point_diameters_def sample_loop_eq max_distance_eq sample_diameter_def
      sample_index_def point_distance_fun del: upt_Suc)

lemma center_eq:
  "center_x ar c (int P) (int (P div 10)) = est_center_x ar c P"
  "center_y ar c (int P) (int (P div 10)) = est_center_y ar c P"
  by (simp_all add: center_x_def center_y_def sample_loop_eq est_center_x_def est_center_y_def
      sample_index_def GESTURE_CIRCLE_SAMPLES_def del: upt_Suc)

lemma average_radius_eq:
  "average_radius ar c (int P) (int (P div 10)) = est_radius ar c P"
proof -
  have "fold (\<lambda>j a. add_f ar a (sample_point_diameters ar c (int P) (int (P div 10)) ! j))
          [0..<10] (Fin 0)
          = fsum ar (map (\<lambda>j. sample_point_diameters ar c (int P) (int (P div 10)) ! j) [0..<10])"
    unfolding fsum_def by (rule fold_foldl)
  also have "map (\<lambda>j. sample_point_diameters ar c (int P) (int (P div 10)) ! j) [0..<10]
               = map (sample_diameter ar c P) [0..<10]"
    by (rule map_cong) (simp_all add: diameter_nth del: upt_Suc)
  finally show ?thesis
    by (simp add: average_radius_def est_radius_def GESTURE_CIRCLE_SAMPLES_def del: upt_Suc)
qed

lemma track_step_fields:
  "circular_deviation (track_step ar c cx cy r i t)
     = add_f ar (circular_deviation t) (square ar (sub_f ar (center_distance ar c cx cy i) r))"
  "x_max (track_step ar c cx cy r i t) = (if point_x c i > x_max t then point_x c i else x_max t)"
  "x_max_index (track_step ar c cx cy r i t)
     = (if point_x c i > x_max t then int i else x_max_index t)"
  "x_min (track_step ar c cx cy r i t) = (if point_x c i < x_min t then point_x c i else x_min t)"
  "x_min_index (track_step ar c cx cy r i t)
     = (if point_x c i < x_min t then int i else x_min_index t)"
  "y_max (track_step ar c cx cy r i t) = (if point_y c i > y_max t then point_y c i else y_max t)"
  "y_max_index (track_step ar c cx cy r i t)
     = (if point_y c i > y_max t then int i else y_max_index t)"
  by (simp_all add: track_step_def Let_def euclid_eq center_distance_def point_x_def point_y_def
      sqr_square)

lemma track_deviation:
  "circular_deviation (fold (track_step ar c cx cy r) [0..<n] track_init)
     = fsum ar (map (\<lambda>i. square ar (sub_f ar (center_distance ar c cx cy i) r)) [0..<n])"
proof (induction n)
  case 0
  then show ?case by (simp add: track_init_def fsum_Nil)
next
  case (Suc n)
  show ?case
    unfolding fold_upt_Suc fsum_upt_Suc track_step_fields Suc ..
qed

lemma circle_deviation_eq:
  "circle_deviation ar c (int P) (int (P div 10)) = radial_deviation ar c P"
  by (simp add: circle_deviation_def track_loop_def track_deviation center_eq average_radius_eq
      radial_deviation_def)

lemma ends_distance_eq: "0 < P \<Longrightarrow> ends_distance ar c (int P) = closure_distance ar c P"
proof -
  assume "0 < P"
  then have e: "int (P - Suc 0) = int P - 1" by simp
  have "2 * (int P - 1) = 2 * int P - 2" "2 * (int P - 1) + 1 = 2 * int P - 1" by simp_all
  then show ?thesis
    by (simp add: ends_distance_def closure_distance_def point_distance_def center_distance_def
        euclid_eq point_x_def point_y_def e)
qed

lemma circle_test_eq:
  "circle_test ar c (int P) =
     (if 10 \<le> P \<and> fle (lit_d ar (65 / 100)) (est_diameter ar c P)
         \<and> fle (radial_deviation ar c P) (lit_d ar (3 / 10))
         \<and> fle (closure_distance ar c P) (lit_d ar (4 / 10))
      then Some (if clockwise (track_loop ar c (int P) (int (P div 10)))
                 then ARM_CIRCLE_CW else ARM_CIRCLE_CCW)
      else None)"
proof (cases "10 \<le> P")
  case True
  then have "1 \<le> P div 10" by simp
  then have "1 \<le> int (P div 10)" by linarith
  moreover have "0 < P" using True by simp
  ultimately show ?thesis
    using True
    by (simp add: circle_test_def sdiv_samples Let_def average_radius_eq circle_deviation_eq
        ends_distance_eq est_diameter_def fge_def CIRCLE_MIN_DIAMETER_def
        CIRCLE_MAX_DEVIATION_def MAX_ENDS_DISCANCE_def)
next
  case False
  then show ?thesis by (simp add: circle_test_few)
qed

lemma max_tracked_0: "max_tracked b f 0 b 0"
  by (simp add: max_tracked_def)

lemma min_tracked_0: "min_tracked b f 0 b 0"
  by (simp add: min_tracked_def)

lemma max_tracked_Suc:
  assumes "max_tracked b f n best k"
  shows "max_tracked b f (Suc n) (if f n > best then f n else best)
           (if f n > best then int n else k)"
proof (cases "f n > best")
  case True
  with assms have "b < f n" "\<forall>i<n. f i < f n"
    by (auto simp: max_tracked_def)
  with True show ?thesis
    by (auto simp: max_tracked_def less_Suc_eq)
next
  case False
  show ?thesis
  proof (cases "\<exists>i<n. b < f i")
    case True
    then have "\<exists>i<Suc n. b < f i" by (auto simp: less_Suc_eq)
    with True False assms show ?thesis
      by (simp add: max_tracked_def less_Suc_eq)
  next
    case no: False
    with assms have bk: "best = b" "k = 0" by (simp_all add: max_tracked_def)
    with False no have n1: "\<not> (\<exists>i<Suc n. b < f i)" by (auto simp: less_Suc_eq)
    then have "\<forall>i<Suc n. f i \<le> b" by (meson not_le)
    with False bk n1 show ?thesis
      unfolding max_tracked_def by auto
  qed
qed

lemma min_tracked_Suc:
  assumes "min_tracked b f n best k"
  shows "min_tracked b f (Suc n) (if f n < best then f n else best)
           (if f n < best then int n else k)"
proof (cases "f n < best")
  case True
  with assms have "f n < b" "\<forall>i<n. f n < f i"
    by (auto simp: min_tracked_def)
  with True show ?thesis
    by (auto simp: min_tracked_def less_Suc_eq)
next
  case False
  show ?thesis
  proof (cases "\<exists>i<n. f i < b")
    case True
    then have "\<exists>i<Suc n. f i < b" by (auto simp: less_Suc_eq)
    with True False assms show ?thesis
      by (simp add: min_tracked_def less_Suc_eq)
  next
    case no: False
    with assms have bk: "best = b" "k = 0" by (simp_all add: min_tracked_def)
    with False no have n1: "\<not> (\<exists>i<Suc n. f i < b)" by (auto simp: less_Suc_eq)
    then have "\<forall>i<Suc n. b \<le> f i" by (meson not_le)
    with False bk n1 show ?thesis
      unfolding min_tracked_def by auto
  qed
qed

lemma track_loop_tracked:
  "max_tracked 0 (point_x c) n
     (x_max (fold (track_step ar c cx cy r) [0..<n] track_init))
     (x_max_index (fold (track_step ar c cx cy r) [0..<n] track_init))
   \<and> min_tracked 1000 (point_x c) n
     (x_min (fold (track_step ar c cx cy r) [0..<n] track_init))
     (x_min_index (fold (track_step ar c cx cy r) [0..<n] track_init))
   \<and> max_tracked 0 (point_y c) n
     (y_max (fold (track_step ar c cx cy r) [0..<n] track_init))
     (y_max_index (fold (track_step ar c cx cy r) [0..<n] track_init))"
proof (induction n)
  case 0
  show ?case
    using max_tracked_0 [of 0] min_tracked_0 [of 1000] by (simp add: track_init_def)
next
  case (Suc n)
  then show ?case
    using max_tracked_Suc min_tracked_Suc by (simp add: track_step_fields)
qed

lemma tracked_index:
  "max_tracked b f n best k \<Longrightarrow> tracked_max_index b f n k"
  "min_tracked b f n best k \<Longrightarrow> tracked_min_index b f n k"
  by (auto simp: max_tracked_def min_tracked_def tracked_max_index_def tracked_min_index_def
      split: if_splits)

lemma rotation_test_labels:
  "rotation_test ar c n roll = Some g \<Longrightarrow> g \<in> {ARM_ROTATE_CW, ARM_ROTATE_CCW}"
  by (auto simp: rotation_test_def split: if_splits)

lemma later_stages_no_circle:
  "circle_test ar c n = None \<Longrightarrow> classify ar c n roll \<notin> {ARM_CIRCLE_CW, ARM_CIRCLE_CCW}"
  using straight_test_labels [of ar c n] rotation_test_labels [of ar c n roll]
  by (cases "rotation_test ar c n roll") (auto simp: classify_def)

lemma tracked_max_first:
  assumes "tracked_max_index b f n k" "m < n" "b < f m" "\<forall>i<n. f i \<le> f m" "\<forall>i<m. f i < f m"
  shows "k = int m"
proof -
  from assms(1-3) have k: "0 \<le> k" "nat k < n" and le: "\<forall>i<n. f i \<le> f (nat k)"
    and lt: "\<forall>i<nat k. f i < f (nat k)"
    unfolding tracked_max_index_def by (auto split: if_splits)
  have eq: "f (nat k) = f m" using le assms(2,4) k(2) by (simp add: order_antisym)
  have "\<not> m < nat k" using lt eq by auto
  moreover have "\<not> nat k < m" using assms(5) eq by auto
  ultimately have "nat k = m" by simp
  with k(1) show ?thesis by simp
qed

lemma tracked_min_first:
  assumes "tracked_min_index b f n k" "m < n" "f m < b" "\<forall>i<n. f m \<le> f i" "\<forall>i<m. f m < f i"
  shows "k = int m"
proof -
  from assms(1-3) have k: "0 \<le> k" "nat k < n" and le: "\<forall>i<n. f (nat k) \<le> f i"
    and lt: "\<forall>i<nat k. f (nat k) < f i"
    unfolding tracked_min_index_def by (auto split: if_splits)
  have eq: "f (nat k) = f m" using le assms(2,4) k(2) by (simp add: order_antisym)
  have "\<not> m < nat k" using lt eq by auto
  moreover have "\<not> nat k < m" using assms(5) eq by auto
  ultimately have "nat k = m" by simp
  with k(1) show ?thesis by simp
qed

section \<open>The arithmetic without rounding\<close>

lemma fsum_exact:
  "(\<And>i. i < n \<Longrightarrow> f i = Fin (g i)) \<Longrightarrow> fsum exact_arith (map f [0..<n]) = Fin (\<Sum>i<n. g i)"
proof (induction n)
  case 0
  then show ?case by (simp add: fsum_Nil)
next
  case (Suc n)
  then have "fsum exact_arith (map f [0..<n]) = Fin (\<Sum>i<n. g i)" "f n = Fin (g n)"
    by simp_all
  then show ?case
    unfolding fsum_upt_Suc by simp
qed

lemma fold_max_upt:
  "fold (\<lambda>i d. if g i > d then g i else d) [0..<n] (d0 :: real) = Max (insert d0 (g ` {..<n}))"
proof (induction n)
  case 0
  then show ?case by simp
next
  case (Suc n)
  define M where "M = Max (insert d0 (g ` {..<n}))"
  have "insert d0 (g ` {..<Suc n}) = insert (g n) (insert d0 (g ` {..<n}))"
    by (auto simp: lessThan_Suc)
  then have "Max (insert d0 (g ` {..<Suc n})) = max (g n) M"
    unfolding M_def using Max_insert [of "insert d0 (g ` {..<n})" "g n"] by simp
  moreover have "fold (\<lambda>i d. if g i > d then g i else d) [0..<Suc n] d0
                   = (if g n > M then g n else M)"
    using Suc unfolding M_def by simp
  ultimately show ?case by (simp add: max_def)
qed

lemma Max_nonneg_image:
  assumes "0 < (n :: nat)" "\<And>i. 0 \<le> g i"
  shows "Max (insert (0 :: real) (g ` {..<n})) = Max (g ` {..<n})"
proof -
  have ne: "g ` {..<n} \<noteq> {}" using assms(1) by auto
  have fin: "finite (g ` {..<n})" by simp
  have "Max (insert 0 (g ` {..<n})) = max 0 (Max (g ` {..<n}))"
    using Max_insert [OF fin ne] .
  moreover have "g 0 \<le> Max (g ` {..<n})"
    using assms(1) by (intro Max_ge) auto
  then have "0 \<le> Max (g ` {..<n})"
    using assms(2) [of 0] by linarith
  ultimately show ?thesis by simp
qed

lemma greatest_exact:
  "(\<And>i. i < n \<Longrightarrow> f i = Fin (g i)) \<Longrightarrow>
   greatest (map f [0..<n]) = Fin (Max (insert 0 (g ` {..<n})))"
proof -
  assume f: "\<And>i. i < n \<Longrightarrow> f i = Fin (g i)"
  have "k \<le> n \<Longrightarrow> greatest (map f [0..<k])
          = Fin (fold (\<lambda>i d. if g i > d then g i else d) [0..<k] 0)" for k
  proof (induction k)
    case 0
    then show ?case by (simp add: greatest_def)
  next
    case (Suc k)
    then have "greatest (map f [0..<k]) = Fin (fold (\<lambda>i d. if g i > d then g i else d) [0..<k] 0)"
      and "f k = Fin (g k)"
      using f by simp_all
    then show ?case
      using greatest_snoc [of "map f [0..<k]" "f k"] by simp
  qed
  then show ?thesis by (simp add: fold_max_upt)
qed

lemma exact_euclid_nonneg: "0 \<le> exact_euclid x1 y1 x2 y2"
  by (simp add: exact_euclid_def)

lemma euclid_exact:
  "euclid exact_arith (Fin x1) (Fin y1) (Fin x2) (Fin y2) = Fin (exact_euclid x1 y1 x2 y2)"
  by (simp add: euclid_def square_def exact_euclid_def power2_eq_square not_less
      add_nonneg_nonneg)

lemma center_distance_exact:
  "center_distance exact_arith c (Fin x) (Fin y) i = Fin (exact_center_distance c x y i)"
  by (simp add: center_distance_def exact_center_distance_def euclid_exact)

lemma point_distance_exact:
  "point_distance exact_arith c k i = Fin (exact_point_distance c k i)"
  by (simp add: point_distance_def exact_point_distance_def center_distance_exact)

lemma sample_diameter_exact:
  "0 < P \<Longrightarrow> sample_diameter exact_arith c P j = Fin (exact_sample_diameter c P j)"
proof -
  assume P: "0 < P"
  let ?g = "exact_point_distance c (sample_index P j)"
  have "sample_diameter exact_arith c P j = Fin (Max (insert 0 (?g ` {..<P})))"
    unfolding sample_diameter_def by (rule greatest_exact) (simp add: point_distance_exact)
  also have "Max (insert 0 (?g ` {..<P})) = Max (?g ` {..<P})"
    using P
    by (intro Max_nonneg_image)
      (simp_all add: exact_point_distance_def exact_center_distance_def exact_euclid_nonneg)
  finally show ?thesis by (simp add: exact_sample_diameter_def)
qed

lemma est_radius_exact:
  "0 < P \<Longrightarrow> est_radius exact_arith c P = Fin (exact_est_diameter c P / 2)"
proof -
  assume P: "0 < P"
  have "fsum exact_arith (map (sample_diameter exact_arith c P) [0..<10])
          = Fin (\<Sum>j<10. exact_sample_diameter c P j)"
    using P by (intro fsum_exact) (simp add: sample_diameter_exact)
  then show ?thesis
    by (simp add: est_radius_def exact_est_diameter_def)
qed

lemma est_diameter_exact:
  "0 < P \<Longrightarrow> est_diameter exact_arith c P = Fin (exact_est_diameter c P)"
  by (simp add: est_diameter_def est_radius_exact)

lemma est_center_exact:
  "est_center_x exact_arith c P = Fin (exact_est_center_x c P)"
  "est_center_y exact_arith c P = Fin (exact_est_center_y c P)"
proof -
  have "fsum exact_arith (map (\<lambda>j. Fin (point_x c (sample_index P j))) [0..<10])
          = Fin (\<Sum>j<10. point_x c (sample_index P j))"
    by (rule fsum_exact) simp
  then show "est_center_x exact_arith c P = Fin (exact_est_center_x c P)"
    by (simp add: est_center_x_def exact_est_center_x_def)
  have "fsum exact_arith (map (\<lambda>j. Fin (point_y c (sample_index P j))) [0..<10])
          = Fin (\<Sum>j<10. point_y c (sample_index P j))"
    by (rule fsum_exact) simp
  then show "est_center_y exact_arith c P = Fin (exact_est_center_y c P)"
    by (simp add: est_center_y_def exact_est_center_y_def)
qed

lemma radial_deviation_exact:
  "0 < P \<Longrightarrow> radial_deviation exact_arith c P = Fin (exact_radial_deviation c P)"
proof -
  assume P: "0 < P"
  let ?d = "\<lambda>i. exact_center_distance c (exact_est_center_x c P) (exact_est_center_y c P) i
               - exact_est_diameter c P / 2"
  have "fsum exact_arith
          (map (\<lambda>i. square exact_arith
                      (sub_f exact_arith
                         (center_distance exact_arith c (est_center_x exact_arith c P)
                            (est_center_y exact_arith c P) i)
                         (est_radius exact_arith c P)))
             [0..<P])
          = Fin (\<Sum>i<P. (?d i)\<^sup>2)"
    using P
    by (intro fsum_exact)
      (simp add: est_center_exact est_radius_exact center_distance_exact square_def
        power2_eq_square)
  moreover have "0 \<le> (\<Sum>i<P. (?d i)\<^sup>2) / real P"
    by (simp add: sum_nonneg)
  ultimately show ?thesis
    using P unfolding radial_deviation_def exact_radial_deviation_def
    by (simp add: not_less)
qed

lemma closure_distance_exact:
  "closure_distance exact_arith c P = Fin (exact_closure_distance c P)"
  by (simp add: closure_distance_def exact_closure_distance_def point_distance_exact)

lemma variance_exact:
  "0 < P \<Longrightarrow> x_variance exact_arith c P = Fin (exact_x_variance c P)"
  "0 < P \<Longrightarrow> y_variance exact_arith c P = Fin (exact_y_variance c P)"
  "0 < P \<Longrightarrow> corrected_y_variance exact_arith c P = Fin (exact_y_variance c P * (13 / 10))"
proof -
  have x: "fsum exact_arith (map (\<lambda>i. square exact_arith (Fin (point_x c i))) [0..<P])
          = Fin (\<Sum>i<P. (point_x c i)\<^sup>2)"
    by (rule fsum_exact) (simp add: square_def power2_eq_square)
  have y: "fsum exact_arith (map (\<lambda>i. square exact_arith (Fin (point_y c i))) [0..<P])
          = Fin (\<Sum>i<P. (point_y c i)\<^sup>2)"
    by (rule fsum_exact) (simp add: square_def power2_eq_square)
  show "0 < P \<Longrightarrow> x_variance exact_arith c P = Fin (exact_x_variance c P)"
    by (simp add: x_variance_def exact_x_variance_def x)
  show yv: "0 < P \<Longrightarrow> y_variance exact_arith c P = Fin (exact_y_variance c P)"
    by (simp add: y_variance_def exact_y_variance_def y)
  show "0 < P \<Longrightarrow> corrected_y_variance exact_arith c P = Fin (exact_y_variance c P * (13 / 10))"
    by (simp add: corrected_y_variance_def yv)
qed

lemma displacement_exact:
  "x_displacement exact_arith c P = Fin (exact_x_displacement c P)"
  "y_displacement exact_arith c P = Fin (exact_y_displacement c P)"
  unfolding x_displacement_def y_displacement_def exact_x_displacement_def
    exact_y_displacement_def
  by (rule fsum_exact, simp)+

lemma last_point_distance_exact:
  "last_point_distance exact_arith c P
     = Fin (exact_euclid 0 0 (c (2 * int P - 2)) (c (2 * int P - 1)))"
  by (simp add: last_point_distance_def euclid_exact)

section \<open>The example caches\<close>

lemma two_cluster_points:
  "point_x (two_cluster d) i = (if odd i then d else 0)" "point_y (two_cluster d) i = 0"
proof -
  have "(2 * int i) mod 4 = 2 \<longleftrightarrow> odd i" by presburger
  then show "point_x (two_cluster d) i = (if odd i then d else 0)"
    by (simp add: point_x_def two_cluster_def)
  have "(2 * int i + 1) mod 4 \<noteq> 2" by presburger
  then show "point_y (two_cluster d) i = 0"
    by (simp add: point_y_def two_cluster_def)
qed

lemma two_cluster_distance:
  "exact_center_distance (two_cluster d) x 0 i = \<bar>x - (if odd i then d else 0)\<bar>"
  by (simp add: exact_center_distance_def exact_euclid_def two_cluster_points)

lemma two_cluster_diameter:
  assumes "0 \<le> d" "2 \<le> P"
  shows "exact_sample_diameter (two_cluster d) P j = d"
proof -
  let ?k = "sample_index P j"
  have v: "exact_point_distance (two_cluster d) ?k i = (if odd i = odd ?k then 0 else d)" for i
    using assms(1) by (simp add: exact_point_distance_def two_cluster_distance two_cluster_points)
  have "Max (exact_point_distance (two_cluster d) ?k ` {..<P}) = d"
  proof (rule Max_eqI)
    show "finite (exact_point_distance (two_cluster d) ?k ` {..<P})" by simp
    show "y \<le> d" if "y \<in> exact_point_distance (two_cluster d) ?k ` {..<P}" for y
      using that assms(1) by (auto simp: v)
    have a: "exact_point_distance (two_cluster d) ?k (if odd ?k then 0 else 1) = d"
      by (simp add: v)
    have b: "(if odd ?k then 0 else 1) \<in> {..<P}" using assms(2) by simp
    show "d \<in> exact_point_distance (two_cluster d) ?k ` {..<P}"
      by (rule image_eqI [where f = "exact_point_distance (two_cluster d) ?k"
            and x = "if odd ?k then 0 else 1", OF a [symmetric] b])
  qed
  then show ?thesis by (simp add: exact_sample_diameter_def)
qed

lemma two_cluster_est_diameter:
  "0 \<le> d \<Longrightarrow> 2 \<le> P \<Longrightarrow> exact_est_diameter (two_cluster d) P = d"
  by (simp add: exact_est_diameter_def two_cluster_diameter)

lemma sum_lessThan_10:
  "(\<Sum>j<(10 :: nat). g j) = g 0 + g 1 + g 2 + g 3 + g 4 + g 5 + g 6 + g 7 + g 8 + (g 9 :: real)"
  by (simp add: numeral_eq_Suc)

lemma sum_odd_10: "(\<Sum>j<(10 :: nat). if odd j then d else 0) = 5 * (d :: real)"
  by (simp add: sum_lessThan_10)

lemma two_cluster_center:
  "P div 10 = 1 \<Longrightarrow> exact_est_center_x (two_cluster d) P = d / 2"
  "exact_est_center_y (two_cluster d) P = 0"
  by (simp_all add: exact_est_center_x_def exact_est_center_y_def sample_index_def two_cluster_points
      sum_odd_10)

lemma two_cluster_deviation:
  assumes "0 \<le> d" "2 \<le> P" "P div 10 = 1"
  shows "exact_radial_deviation (two_cluster d) P = 0"
proof -
  have r: "exact_center_distance (two_cluster d) (d / 2) 0 i = d / 2" for i
    using assms(1) by (simp add: two_cluster_distance)
  have "(\<Sum>i<P. (exact_center_distance (two_cluster d) (d / 2) 0 i - d / 2)\<^sup>2) = 0"
    unfolding r by simp
  then show ?thesis
    using assms by (simp add: exact_radial_deviation_def two_cluster_center two_cluster_est_diameter)
qed

lemma two_cluster_closure:
  "0 \<le> d \<Longrightarrow> exact_closure_distance (two_cluster d) 10 = d"
  "exact_closure_distance (two_cluster d) 11 = 0"
  by (simp_all add: exact_closure_distance_def exact_point_distance_def two_cluster_distance
      two_cluster_points)

lemma two_cluster_state_simps:
  "gesture_cache (two_cluster_state d n) = two_cluster d"
  "gesture_roll_angle (two_cluster_state d n) = Fin 0"
  "0 \<le> n \<Longrightarrow> num_points_of (two_cluster_state d n) = n"
  by (simp_all add: two_cluster_state_def num_points_of_def signed_divide_int_def sgn_if)

lemma two_cluster_stats:
  "exact_x_variance (two_cluster d) 10 = d\<^sup>2 / 2" "exact_y_variance (two_cluster d) 10 = 0"
  "exact_x_displacement (two_cluster d) 10 = 5 * d"
  by (simp_all add: exact_x_variance_def exact_y_variance_def exact_x_displacement_def
      two_cluster_points sum_lessThan_10)

lemma two_cluster_last:
  "0 \<le> d \<Longrightarrow> last_point_distance exact_arith (two_cluster d) 10 = Fin d"
  by (simp add: last_point_distance_exact exact_euclid_def two_cluster_def)

lemma sqrt_25_16: "sqrt (25 / 16) = 5 / 4"
  by (rule real_sqrt_unique) (simp_all add: power2_eq_square)

lemma sqrt_25_64: "sqrt (25 / 64) = 5 / 8"
  by (rule real_sqrt_unique) (simp_all add: power2_eq_square)

lemma rectangle_points:
  "point_x rectangle_path i = (if 5 \<le> i \<and> i \<le> 9 then 3 / 4 else 0)"
  "point_y rectangle_path i = (if 3 \<le> i \<and> i \<le> 7 then 1 else 0)"
  by (auto simp: point_x_def point_y_def rectangle_path_def)

lemma rectangle_far:
  "exact_point_distance rectangle_path k
     (if k \<le> 2 \<or> 10 \<le> k then 5 else if k \<le> 4 then 8 else if k \<le> 7 then 0 else 3) = 5 / 4"
  by (simp add: exact_point_distance_def exact_center_distance_def exact_euclid_def
      rectangle_points power2_eq_square sqrt_25_16)

lemma rectangle_near: "exact_point_distance rectangle_path k i \<le> 5 / 4"
proof -
  have "(point_x rectangle_path k - point_x rectangle_path i)\<^sup>2 \<le> 9 / 16"
    and "(point_y rectangle_path k - point_y rectangle_path i)\<^sup>2 \<le> 1"
    by (simp_all add: rectangle_points power2_eq_square)
  then have "(point_x rectangle_path k - point_x rectangle_path i)\<^sup>2
      + (point_y rectangle_path k - point_y rectangle_path i)\<^sup>2 \<le> 25 / 16"
    by linarith
  then have "sqrt ((point_x rectangle_path k - point_x rectangle_path i)\<^sup>2
      + (point_y rectangle_path k - point_y rectangle_path i)\<^sup>2) \<le> sqrt (25 / 16)"
    by (rule real_sqrt_le_mono)
  then show ?thesis
    by (simp add: exact_point_distance_def exact_center_distance_def exact_euclid_def
        sqrt_25_16)
qed

lemma rectangle_diameter: "exact_sample_diameter rectangle_path 11 j = 5 / 4"
proof -
  let ?k = "sample_index 11 j"
  let ?far = "if ?k \<le> 2 \<or> 10 \<le> ?k then 5 else if ?k \<le> 4 then 8 else if ?k \<le> 7 then 0 else 3"
  have "Max (exact_point_distance rectangle_path ?k ` {..<11}) = 5 / 4"
  proof (rule Max_eqI)
    show "finite (exact_point_distance rectangle_path ?k ` {..<11})" by simp
    show "y \<le> 5 / 4" if "y \<in> exact_point_distance rectangle_path ?k ` {..<11}" for y
      using that rectangle_near by auto
    have b: "?far \<in> {..<(11 :: nat)}" by simp
    show "5 / 4 \<in> exact_point_distance rectangle_path ?k ` {..<11}"
      by (rule image_eqI [where f = "exact_point_distance rectangle_path ?k" and x = ?far,
            OF rectangle_far [symmetric] b])
  qed
  then show ?thesis by (simp add: exact_sample_diameter_def)
qed

lemma rectangle_center:
  "exact_est_center_x rectangle_path 11 = 3 / 8" "exact_est_center_y rectangle_path 11 = 1 / 2"
  by (simp_all add: exact_est_center_x_def exact_est_center_y_def sample_index_def
      rectangle_points sum_lessThan_10)

lemma rectangle_radius: "exact_center_distance rectangle_path (3 / 8) (1 / 2) i = 5 / 8"
  by (simp add: exact_center_distance_def exact_euclid_def rectangle_points power2_eq_square
      sqrt_25_64)

lemma rectangle_values:
  "exact_est_diameter rectangle_path 11 = 5 / 4" "exact_radial_deviation rectangle_path 11 = 0"
  "exact_closure_distance rectangle_path 11 = 0"
proof -
  show "exact_est_diameter rectangle_path 11 = 5 / 4"
    by (simp add: exact_est_diameter_def rectangle_diameter)
  then show "exact_radial_deviation rectangle_path 11 = 0"
    by (simp add: exact_radial_deviation_def rectangle_center rectangle_radius)
  show "exact_closure_distance rectangle_path 11 = 0"
    by (simp add: exact_closure_distance_def exact_point_distance_def exact_center_distance_def
        exact_euclid_def rectangle_points)
qed

section \<open>The circle stage as a whole\<close>

text \<open>
  C2, as the code has it. With \<open>P\<close> points the circle stage is evaluated only when \<open>P \<ge> 10\<close>.
  The diameter of a sample point is its greatest distance to a recorded point; the
  estimated radius is the sum of the ten diameters divided by twice ten, so that the
  estimated diameter, twice the estimated radius, stands for the mean of the ten
  diameters, not for twice the mean. The stage accepts exactly when the estimated
  diameter is at least 0.65, the root of the mean squared difference between the distance
  of a point from the estimated centre and the estimated radius is at most 0.3, and the
  distance between the first and the last point is at most 0.4. The label is then
  \<open>ARM_CIRCLE_CW\<close> exactly when the three tracked indices are in one of the three cyclic
  orders, and \<open>ARM_CIRCLE_CCW\<close> otherwise; the later stages never give a circle label. The
  tracked index of the minimum x is that of the first point with the least x, that of the
  maximum x or y is that of the first point with the greatest x or y if it is positive,
  and 0 if no x or y is positive. Sums, squares, quotients, products and roots are those
  of the arithmetic; the constants are the \<^verbatim>\<open>double\<close>s of the literals.
\<close>

theorem circle_stage:
  "num_points_of st = int P \<Longrightarrow>
   (let c = gesture_cache st; label = fst (processCacheData ar st);
        t = track_loop ar c (int P) (int (P div 10));
        i_min = x_min_index t; i_ymax = y_max_index t; i_xmax = x_max_index t;
        accepts = (10 \<le> P \<and> fle (lit_d ar (65 / 100)) (est_diameter ar c P)
                   \<and> fle (radial_deviation ar c P) (lit_d ar (3 / 10))
                   \<and> fle (closure_distance ar c P) (lit_d ar (4 / 10)))
    in (circle_test ar c (int P) \<noteq> None \<longleftrightarrow> accepts)
     \<and> (label \<in> {ARM_CIRCLE_CW, ARM_CIRCLE_CCW} \<longleftrightarrow> accepts)
     \<and> (label = ARM_CIRCLE_CW \<longleftrightarrow>
          accepts \<and> ((i_min < i_ymax \<and> i_ymax < i_xmax) \<or> (i_ymax < i_xmax \<and> i_xmax < i_min)
                     \<or> (i_xmax < i_min \<and> i_min < i_ymax)))
     \<and> tracked_min_index 1000 (point_x c) P i_min
     \<and> tracked_max_index 0 (point_y c) P i_ymax
     \<and> tracked_max_index 0 (point_x c) P i_xmax
     \<and> (\<forall>j<10. is_greatest (map (point_distance ar c (sample_index P j)) [0..<P])
                   (sample_diameter ar c P j)))"
proof -
  assume np: "num_points_of st = int P"
  define c where "c = gesture_cache st"
  define t where "t = track_loop ar c (int P) (int (P div 10))"
  define accepts where "accepts \<longleftrightarrow> 10 \<le> P \<and> fle (lit_d ar (65 / 100)) (est_diameter ar c P)
      \<and> fle (radial_deviation ar c P) (lit_d ar (3 / 10))
      \<and> fle (closure_distance ar c P) (lit_d ar (4 / 10))"
  define cyclic where "cyclic \<longleftrightarrow> (x_min_index t < y_max_index t \<and> y_max_index t < x_max_index t)
      \<or> (y_max_index t < x_max_index t \<and> x_max_index t < x_min_index t)
      \<or> (x_max_index t < x_min_index t \<and> x_min_index t < y_max_index t)"
  define diameters where "diameters \<longleftrightarrow>
      (\<forall>j<10. is_greatest (map (point_distance ar c (sample_index P j)) [0..<P])
                 (sample_diameter ar c P j))"
  have lab: "fst (processCacheData ar st) = classify ar c (int P) (gesture_roll_angle st)"
    using processCacheData_label [OF np] by (simp add: c_def)
  have ct: "circle_test ar c (int P) =
      (if accepts then Some (if cyclic then ARM_CIRCLE_CW else ARM_CIRCLE_CCW) else None)"
    unfolding accepts_def cyclic_def t_def circle_test_eq clockwise_def ..
  have tr: "tracked_min_index 1000 (point_x c) P (x_min_index t)"
    "tracked_max_index 0 (point_y c) P (y_max_index t)"
    "tracked_max_index 0 (point_x c) P (x_max_index t)"
    using track_loop_tracked [of c P ar] unfolding t_def track_loop_def
    by (auto intro: tracked_index)
  have dm: diameters
    unfolding diameters_def sample_diameter_def using greatest_is_greatest by blast
  have "(circle_test ar c (int P) \<noteq> None \<longleftrightarrow> accepts)
     \<and> (fst (processCacheData ar st) \<in> {ARM_CIRCLE_CW, ARM_CIRCLE_CCW} \<longleftrightarrow> accepts)
     \<and> (fst (processCacheData ar st) = ARM_CIRCLE_CW \<longleftrightarrow> accepts \<and> cyclic)"
  proof (cases accepts)
    case True
    then show ?thesis by (simp add: lab classify_def ct)
  next
    case False
    then have "circle_test ar c (int P) = None" by (simp add: ct)
    from later_stages_no_circle [OF this, of "gesture_roll_angle st"] this False
    show ?thesis by (auto simp: lab)
  qed
  with tr dm show ?thesis
    unfolding Let_def accepts_def cyclic_def diameters_def t_def c_def by blast
qed

text \<open>
  Ten points alternating between \<open>(0, 0)\<close> and \<open>(0.375, 0)\<close>, with the roll angle 0. The
  greatest distance of every sample point is 0.375, so twice the mean of these distances
  is 0.75, the deviation is 0 and the ends are 0.375 apart: the three conditions hold
  when the diameter is taken as twice the mean. The code compares the mean itself, 0.375,
  with 0.65, rejects the circle and returns \<open>ARM_RIGHT\<close>. Every number here is a binary
  fraction that the target computes as it stands.
\<close>

theorem circle_stage_counterexample:
  "num_points_of (two_cluster_state (3 / 8) 10) = 10
   \<and> 2 * exact_est_diameter (two_cluster (3 / 8)) 10 \<ge> 65 / 100
   \<and> exact_radial_deviation (two_cluster (3 / 8)) 10 \<le> 3 / 10
   \<and> exact_closure_distance (two_cluster (3 / 8)) 10 \<le> 4 / 10
   \<and> est_radius exact_arith (two_cluster (3 / 8)) 10 = Fin (3 / 16)
   \<and> est_diameter exact_arith (two_cluster (3 / 8)) 10 = Fin (3 / 8)
   \<and> radial_deviation exact_arith (two_cluster (3 / 8)) 10 = Fin 0
   \<and> closure_distance exact_arith (two_cluster (3 / 8)) 10 = Fin (3 / 8)
   \<and> circle_test exact_arith (two_cluster (3 / 8)) 10 = None
   \<and> fst (processCacheData exact_arith (two_cluster_state (3 / 8) 10)) = ARM_RIGHT"
proof -
  let ?c = "two_cluster (3 / 8)"
  have d: "exact_est_diameter ?c 10 = 3 / 8" by (simp add: two_cluster_est_diameter)
  have r: "exact_radial_deviation ?c 10 = 0" by (simp add: two_cluster_deviation)
  have e: "exact_closure_distance ?c 10 = 3 / 8" by (simp add: two_cluster_closure)
  have m: "est_radius exact_arith ?c 10 = Fin (3 / 16)"
    "est_diameter exact_arith ?c 10 = Fin (3 / 8)"
    "radial_deviation exact_arith ?c 10 = Fin 0"
    "closure_distance exact_arith ?c 10 = Fin (3 / 8)"
    by (simp_all add: est_radius_exact est_diameter_exact radial_deviation_exact
        closure_distance_exact d r e)
  have ct: "circle_test exact_arith ?c (int 10) = None"
    unfolding circle_test_eq by (simp add: m)
  have v: "x_variance exact_arith ?c 10 = Fin (9 / 128)"
    "corrected_y_variance exact_arith ?c 10 = Fin 0"
    "x_displacement exact_arith ?c 10 = Fin (15 / 8)"
    "last_point_distance exact_arith ?c 10 = Fin (3 / 8)"
    by (simp_all add: variance_exact displacement_exact two_cluster_stats two_cluster_last
        power2_eq_square)
  have "classify exact_arith ?c (int 10) (Fin 0) = ARM_RIGHT"
    unfolding classify_cascade [OF ct] using PI_bounds
    by (simp add: v exact_min_angle square_def)
  then have "fst (processCacheData exact_arith (two_cluster_state (3 / 8) 10)) = ARM_RIGHT"
    by (simp add: processCacheData_def two_cluster_state_simps)
  with d r e m ct show ?thesis
    by (simp add: two_cluster_state_simps)
qed

theorem circle_stage_witness:
  "num_points_of (two_cluster_state 1 11) = 11
   \<and> est_diameter exact_arith (two_cluster 1) 11 = Fin 1
   \<and> fst (processCacheData exact_arith (two_cluster_state 1 11)) = ARM_CIRCLE_CCW
   \<and> num_points_of rectangle_state = 11
   \<and> est_diameter exact_arith rectangle_path 11 = Fin (5 / 4)
   \<and> fst (processCacheData exact_arith rectangle_state) = ARM_CIRCLE_CW"
proof -
  let ?c = "two_cluster 1"
  let ?t = "track_loop exact_arith ?c 11 1"
  let ?label = "fst (processCacheData exact_arith (two_cluster_state 1 11))"
  have np: "num_points_of (two_cluster_state 1 11) = int 11"
    by (simp add: two_cluster_state_simps)
  have d: "est_diameter exact_arith ?c 11 = Fin 1"
    by (simp add: est_diameter_exact two_cluster_est_diameter)
  have r: "radial_deviation exact_arith ?c 11 = Fin 0"
    by (simp add: radial_deviation_exact two_cluster_deviation)
  have e: "closure_distance exact_arith ?c 11 = Fin 0"
    by (simp add: closure_distance_exact two_cluster_closure)
  note main = circle_stage [OF np, of exact_arith, unfolded Let_def two_cluster_state_simps]
  from main have circ: "?label \<in> {ARM_CIRCLE_CW, ARM_CIRCLE_CCW}"
    by (auto simp add: d r e)
  from main have cw: "?label = ARM_CIRCLE_CW \<Longrightarrow>
      (x_min_index ?t < y_max_index ?t \<and> y_max_index ?t < x_max_index ?t)
      \<or> (y_max_index ?t < x_max_index ?t \<and> x_max_index ?t < x_min_index ?t)
      \<or> (x_max_index ?t < x_min_index ?t \<and> x_min_index ?t < y_max_index ?t)"
    by auto
  from main have tymax: "tracked_max_index 0 (point_y ?c) 11 (y_max_index ?t)"
    and tmin: "tracked_min_index 1000 (point_x ?c) 11 (x_min_index ?t)"
    by simp_all
  from tymax have ymax: "y_max_index ?t = 0"
    by (simp add: tracked_max_index_def two_cluster_points)
  have xmin: "x_min_index ?t = int 0"
    using tmin by (rule tracked_min_first) (simp_all add: two_cluster_points)
  have ccw: "?label = ARM_CIRCLE_CCW"
    using cw circ by (auto simp: ymax xmin)
  let ?u = "track_loop exact_arith rectangle_path 11 1"
  have np2: "num_points_of rectangle_state = int 11"
    by (simp add: rectangle_state_def num_points_of_def signed_divide_int_def)
  have gc: "gesture_cache rectangle_state = rectangle_path"
    by (simp add: rectangle_state_def)
  have d2: "est_diameter exact_arith rectangle_path 11 = Fin (5 / 4)"
    by (simp add: est_diameter_exact rectangle_values)
  have r2: "radial_deviation exact_arith rectangle_path 11 = Fin 0"
    by (simp add: radial_deviation_exact rectangle_values)
  have e2: "closure_distance exact_arith rectangle_path 11 = Fin 0"
    by (simp add: closure_distance_exact rectangle_values)
  note rect = circle_stage [OF np2, of exact_arith, unfolded Let_def gc]
  from rect have umin: "tracked_min_index 1000 (point_x rectangle_path) 11 (x_min_index ?u)"
    and uymax: "tracked_max_index 0 (point_y rectangle_path) 11 (y_max_index ?u)"
    and uxmax: "tracked_max_index 0 (point_x rectangle_path) 11 (x_max_index ?u)"
    by simp_all
  have i1: "x_min_index ?u = int 0"
    using umin by (rule tracked_min_first) (simp_all add: rectangle_points)
  have i2: "y_max_index ?u = int 3"
    using uymax by (rule tracked_max_first) (simp_all add: rectangle_points)
  have i3: "x_max_index ?u = int 5"
    using uxmax by (rule tracked_max_first) (simp_all add: rectangle_points)
  from rect have "fst (processCacheData exact_arith rectangle_state) = ARM_CIRCLE_CW"
    by (simp add: d2 r2 e2 i1 i2 i3)
  with ccw np np2 d d2 show ?thesis by simp
qed

section \<open>The lock state machine\<close>

lemma lock_changes_append: "lock_changes (xs @ ys) = lock_changes xs @ lock_changes ys"
  by (induction xs rule: lock_changes.induct) simp_all

lemma gestures_append: "gestures (xs @ ys) = gestures xs @ gestures ys"
  by (induction xs rule: gestures.induct) simp_all

lemma pose_released_cases:
  "pose_released s =
     (if \<not> locked s \<and> gestureBufferFull (gesture s)
      then (s\<lparr>gesture := resetGestureCache (gesture s), lock_toggle := True, locked := True\<rparr>,
            [OnLockChange True])
      else if \<not> lock_toggle s
      then (if locked s
            then (s\<lparr>lock_toggle := True, locked := False,
                    gesture := resetGestureCache (gesture s)\<rparr>, [OnLockChange False])
            else (s\<lparr>lock_toggle := True, locked := True\<rparr>, [OnLockChange True]))
      else (s, []))"
  by (simp add: pose_released_def Let_def)

lemma pose_held_cases:
  "pose_held ar s =
     (if lock_toggle s
      then (if locked s then (s\<lparr>refresh_init := True, lock_toggle := False\<rparr>, [])
            else (s\<lparr>refresh_init := True, lock_toggle := False,
                    gesture := snd (processCacheData ar (gesture s))\<rparr>,
                  if fst (processCacheData ar (gesture s)) \<noteq> ARM_UNKNOWN
                  then [OnGesture (fst (processCacheData ar (gesture s)))] else []))
      else (s, []))"
  by (simp add: pose_held_def Let_def split: prod.splits)

lemma active_refresh [simp]:
  "lock_eval_active (s\<lparr>refresh_init := b\<rparr>) t = lock_eval_active s t"
  "below_threshold (s\<lparr>refresh_init := b\<rparr>) = below_threshold s"
  by (simp_all add: lock_eval_active_def below_threshold_def emg_ratio_def)

lemma handleIMUData_cases:
  "handleIMUData ar d millis s =
     (if \<not> lock_eval_active s millis then (s\<lparr>refresh_init := False\<rparr>, [])
      else if below_threshold s then
        (if \<not> locked s \<and> gestureBufferFull (gesture s)
         then (s\<lparr>refresh_init := False, gesture := resetGestureCache (gesture s),
                 lock_toggle := True, locked := True\<rparr>, [OnLockChange True])
         else if \<not> lock_toggle s
         then (if locked s
               then (s\<lparr>refresh_init := False, lock_toggle := True, locked := False,
                       gesture := updateGestureCache (local_2_1 d) (local_2_0 d) (roll_angle d)
                                    (resetGestureCache (gesture s))\<rparr>,
                     [OnLockChange False])
               else (s\<lparr>refresh_init := False, lock_toggle := True, locked := True\<rparr>,
                     [OnLockChange True]))
         else (if locked s then s\<lparr>refresh_init := False\<rparr>
               else s\<lparr>refresh_init := False,
                      gesture := updateGestureCache (local_2_1 d) (local_2_0 d) (roll_angle d)
                                   (gesture s)\<rparr>, []))
      else if lock_toggle s then
        (if locked s then (s\<lparr>refresh_init := True, lock_toggle := False\<rparr>, [])
         else (s\<lparr>refresh_init := True, lock_toggle := False,
                 gesture := updateGestureCache (local_2_1 d) (local_2_0 d) (roll_angle d)
                              (snd (processCacheData ar (gesture s)))\<rparr>,
               if fst (processCacheData ar (gesture s)) \<noteq> ARM_UNKNOWN
               then [OnGesture (fst (processCacheData ar (gesture s)))] else []))
      else (if locked s then s\<lparr>refresh_init := False\<rparr>
            else s\<lparr>refresh_init := False,
                   gesture := updateGestureCache (local_2_1 d) (local_2_0 d) (roll_angle d)
                                (gesture s)\<rparr>, []))"
  by (simp add: handleIMUData_def Let_def pose_released_cases pose_held_cases)

lemma handleEMGData_lock:
  "locked (fst (handleEMGData data m1 m2 s)) = locked s"
  "lock_toggle (fst (handleEMGData data m1 m2 s)) = lock_toggle s"
  "gesture (fst (handleEMGData data m1 m2 s)) = gesture s"
  "lock_changes (snd (handleEMGData data m1 m2 s)) = []"
  "gestures (snd (handleEMGData data m1 m2 s)) = []"
  by (simp_all add: handleEMGData_def updateCache_def Let_def)

lemma handleIMUData_lock_changes:
  "lock_changes (snd (handleIMUData ar d millis s)) =
     (if locked (fst (handleIMUData ar d millis s)) \<noteq> locked s
      then [locked (fst (handleIMUData ar d millis s))] else [])"
  by (simp add: handleIMUData_cases)

lemma step_lock_changes:
  "lock_changes (snd (step ar i s)) =
     (if locked (fst (step ar i s)) \<noteq> locked s then [locked (fst (step ar i s))] else [])"
  by (cases i) (simp_all add: handleIMUData_lock_changes handleEMGData_lock)

lemma run_lock_changes: "lock_changes (snd (run ar inputs s)) = toggles ar inputs s"
proof (induction inputs arbitrary: s)
  case Nil
  then show ?case by simp
next
  case (Cons i inputs)
  obtain s1 evs where st: "step ar i s = (s1, evs)" by (cases "step ar i s")
  obtain s2 evs2 where r: "run ar inputs s1 = (s2, evs2)" by (cases "run ar inputs s1")
  have "lock_changes evs = (if locked s1 \<noteq> locked s then [locked s1] else [])"
    using step_lock_changes [of ar i s] st by simp
  moreover have "lock_changes evs2 = toggles ar inputs s1"
    using Cons.IH [of s1] r by simp
  ultimately show ?case
    using st r by (simp add: lock_changes_append Let_def)
qed

lemma gestures_run: "ARM_UNKNOWN \<notin> set (gestures (snd (run ar inputs s)))"
proof (induction inputs arbitrary: s)
  case Nil
  then show ?case by simp
next
  case (Cons i inputs)
  obtain s1 evs where st: "step ar i s = (s1, evs)" by (cases "step ar i s")
  obtain s2 evs2 where r: "run ar inputs s1 = (s2, evs2)" by (cases "run ar inputs s1")
  have "ARM_UNKNOWN \<notin> set (gestures (snd (step ar i s)))"
    by (cases i) (simp_all add: handleIMUData_cases handleEMGData_lock)
  moreover have "ARM_UNKNOWN \<notin> set (gestures evs2)"
    using Cons.IH [of s1] r by simp
  ultimately show ?case
    using st r by (simp add: gestures_append)
qed

lemma synced_state_simps:
  "lock_eval_active (synced_state e l t off) 5000"
  "below_threshold (synced_state 0 l t off)"
  "\<not> below_threshold (synced_state 100 l t off)"
  "locked (synced_state e l t off) = l"
  "lock_toggle (synced_state e l t off) = t"
  "isEMGSynced (synced_state e l t off)"
  "gesture (synced_state e l t off) = gesture_init\<lparr>gesture_cache_offset := off\<rparr>"
  by (simp_all add: synced_state_def controller_init_def lock_eval_active_def below_threshold_def
      emg_ratio_def EMG_SYNC_TIME_def AFTER_SYNC_WAIT_def LOCK_TOGGLE_THRESHOLD_def)

lemma run_append:
  "run ar (xs @ ys) s =
     (case run ar xs s of (s1, e1) \<Rightarrow> (case run ar ys s1 of (s2, e2) \<Rightarrow> (s2, e1 @ e2)))"
  by (induction xs arbitrary: s) (simp_all split: prod.splits)

lemma state_update_simps [simp]:
  "lock_eval_active (s\<lparr>gesture := g\<rparr>) t = lock_eval_active s t"
  "below_threshold (s\<lparr>gesture := g\<rparr>) = below_threshold s"
  "lock_eval_active (s\<lparr>lock_toggle := b\<rparr>) t = lock_eval_active s t"
  "below_threshold (s\<lparr>lock_toggle := b\<rparr>) = below_threshold s"
  "lock_eval_active (s\<lparr>locked := b\<rparr>) t = lock_eval_active s t"
  "below_threshold (s\<lparr>locked := b\<rparr>) = below_threshold s"
  by (simp_all add: lock_eval_active_def below_threshold_def emg_ratio_def)

lemma recording_run:
  "lock_eval_active s t \<Longrightarrow> below_threshold s \<Longrightarrow> lock_toggle s \<Longrightarrow> \<not> locked s
   \<Longrightarrow> even (gesture_cache_offset (gesture s))
   \<Longrightarrow> gesture_cache_offset (gesture s) + 2 * int n \<le> GESTURE_CACHE_SIZE
   \<Longrightarrow> run ar (replicate n (IMU d t)) (s\<lparr>refresh_init := False\<rparr>) =
         (s\<lparr>refresh_init := False,
            gesture := push_all (replicate n (local_2_1 d, local_2_0 d, roll_angle d)) (gesture s)\<rparr>,
          [])"
proof (induction n arbitrary: s)
  case 0
  then show ?case by simp
next
  case (Suc n)
  let ?g = "updateGestureCache (local_2_1 d) (local_2_0 d) (roll_angle d) (gesture s)"
  from Suc.prems have lt: "gesture_cache_offset (gesture s) < GESTURE_CACHE_SIZE" by simp
  then have off: "gesture_cache_offset ?g = gesture_cache_offset (gesture s) + 2"
    by (simp add: updateGestureCache_def Let_def)
  from lt have nf: "\<not> gestureBufferFull (gesture s)" by (simp add: gestureBufferFull_def)
  have st: "handleIMUData ar d t (s\<lparr>refresh_init := False\<rparr>)
              = ((s\<lparr>gesture := ?g\<rparr>)\<lparr>refresh_init := False\<rparr>, [])"
    using Suc.prems nf by (simp add: handleIMUData_cases)
  have "run ar (replicate n (IMU d t)) ((s\<lparr>gesture := ?g\<rparr>)\<lparr>refresh_init := False\<rparr>) =
         ((s\<lparr>gesture := ?g\<rparr>)\<lparr>refresh_init := False,
            gesture := push_all (replicate n (local_2_1 d, local_2_0 d, roll_angle d))
                         (gesture (s\<lparr>gesture := ?g\<rparr>))\<rparr>, [])"
    using Suc.prems off by (intro Suc.IH) simp_all
  with st show ?case by simp
qed

lemma replicate_10: "replicate 10 x = [x, x, x, x, x, x, x, x, x, x]"
  by (simp add: numeral_eq_Suc)

lemma replicate_9: "replicate 9 x = [x, x, x, x, x, x, x, x, x]"
  by (simp add: numeral_eq_Suc)

lemma replicate_8: "replicate 8 (0 :: 8 word) = silent_emg"
  by (simp add: numeral_eq_Suc silent_emg_def)

lemma emg_first:
  "handleEMGData strong_emg 1 1 controller_init = (sync_rows (strong_emg # replicate 9 silent_emg) 100, [])"
  by (simp add: handleEMGData_def updateCache_def controller_init_def replicate_8
      EMG_CACHE_SIZE_def replicate_10 replicate_9 EMG_SYNC_TIME_def sync_rows_def Let_def)
    (simp add: strong_emg_def silent_emg_def)

lemma emg_silent:
  "row_sum (silent_emg # take 9 rows) \<le> 100 \<Longrightarrow>
   handleEMGData silent_emg 2 2 (sync_rows rows tot) =
     (sync_rows (silent_emg # take 9 rows) (row_sum (silent_emg # take 9 rows)), [])"
  by (simp add: handleEMGData_def updateCache_def sync_rows_def controller_init_def
      EMG_CACHE_SIZE_def EMG_SYNC_TIME_def Let_def row_sum_def)

lemma emg_last:
  "handleEMGData silent_emg 3001 3001 (sync_rows rows tot) =
     ((sync_rows (silent_emg # take 9 rows) (row_sum (silent_emg # take 9 rows)))\<lparr>isEMGSynced := True\<rparr>, [Vibrate 1])"
  by (simp add: handleEMGData_def updateCache_def sync_rows_def controller_init_def
      EMG_CACHE_SIZE_def EMG_SYNC_TIME_def Let_def row_sum_def)

lemma row_sum_simps:
  "row_sum [] = 0" "row_sum (silent_emg # rows) = row_sum rows" "row_sum (strong_emg # rows) = 100 + row_sum rows"
  by (simp_all add: row_sum_def silent_emg_def strong_emg_def)

lemma ten_silent:
  "run ar (replicate 10 (EMG silent_emg 2 2)) (sync_rows (strong_emg # replicate 9 silent_emg) 100)
     = (sync_rows (replicate 10 silent_emg) 0, [])"
  by (simp add: replicate_10 replicate_9 emg_silent row_sum_simps)

lemma sync_run_state:
  "run ar sync_run controller_init =
     ((sync_rows (replicate 10 silent_emg) 0)\<lparr>isEMGSynced := True\<rparr>, [Vibrate 1])"
proof -
  have "run ar (replicate 10 (EMG silent_emg 2 2) @ [EMG silent_emg 3001 3001])
          (sync_rows (strong_emg # replicate 9 silent_emg) 100)
        = ((sync_rows (replicate 10 silent_emg) 0)\<lparr>isEMGSynced := True\<rparr>, [Vibrate 1])"
    by (simp add: run_append ten_silent emg_last)
      (simp add: replicate_10 replicate_9 row_sum_simps)
  then show ?thesis
    by (simp add: sync_run_def emg_first)
qed

lemma handleIMUData_keeps:
  "lock_eval_active (fst (handleIMUData ar d millis s)) t = lock_eval_active s t"
  "below_threshold (fst (handleIMUData ar d millis s)) = below_threshold s"
  "emgSum (fst (handleIMUData ar d millis s)) = emgSum s"
  "emgSync (fst (handleIMUData ar d millis s)) = emgSync s"
  "isEMGSynced (fst (handleIMUData ar d millis s)) = isEMGSynced s"
  "timeConnected (fst (handleIMUData ar d millis s)) = timeConnected s"
  by (simp_all add: handleIMUData_cases lock_eval_active_def below_threshold_def emg_ratio_def)

lemma handleIMUData_toggle:
  "lock_toggle (fst (handleIMUData ar d millis s))
     = (if lock_eval_active s millis then below_threshold s else lock_toggle s)"
  by (simp add: handleIMUData_cases)

lemma handleIMUData_gestures:
  "gestures (snd (handleIMUData ar d millis s)) =
     (if lock_eval_active s millis \<and> \<not> below_threshold s \<and> lock_toggle s \<and> \<not> locked s
         \<and> fst (processCacheData ar (gesture s)) \<noteq> ARM_UNKNOWN
      then [fst (processCacheData ar (gesture s))] else [])"
  by (simp add: handleIMUData_cases)

lemma run_pose_start_gestures:
  "gestures (snd (run ar inputs s)) = pose_start_gestures ar (lock_toggle s) inputs s"
proof (induction inputs arbitrary: s)
  case Nil
  then show ?case by simp
next
  case (Cons i inputs)
  show ?case
  proof (cases i)
    case (IMU d millis)
    let ?s1 = "fst (handleIMUData ar d millis s)"
    have "gestures (snd (run ar (i # inputs) s))
            = gestures (snd (handleIMUData ar d millis s)) @ gestures (snd (run ar inputs ?s1))"
      using IMU by (simp add: case_prod_beta gestures_append)
    also have "gestures (snd (run ar inputs ?s1))
                 = pose_start_gestures ar (lock_toggle ?s1) inputs ?s1"
      by (rule Cons.IH)
    finally show ?thesis
      using IMU by (simp add: handleIMUData_gestures handleIMUData_toggle Let_def)
  next
    case (EMG data m1 m2)
    let ?s1 = "fst (handleEMGData data m1 m2 s)"
    have "gestures (snd (run ar (i # inputs) s))
            = gestures (snd (handleEMGData data m1 m2 s)) @ gestures (snd (run ar inputs ?s1))"
      using EMG by (simp add: case_prod_beta gestures_append)
    also have "gestures (snd (run ar inputs ?s1))
                 = pose_start_gestures ar (lock_toggle ?s1) inputs ?s1"
      by (rule Cons.IH)
    finally show ?thesis
      using EMG by (simp add: handleEMGData_lock)
  qed
qed

text \<open>
  C7, as the code has it. A sample that arrives before the sync is complete, or before the
  lock evaluation is active, never changes \<open>locked\<close>. While the evaluation is active, a
  sample whose ratio is not below the threshold leaves \<open>locked\<close> as it is and clears
  \<open>lock_toggle\<close>; a sample below the threshold toggles \<open>locked\<close> exactly when \<open>lock_toggle\<close>
  is clear or the controller is unlocked with a full cache, and sets \<open>lock_toggle\<close>, so that
  further samples below the threshold toggle again only after the ratio was not below the
  threshold or after the cache of an unlocked controller has filled up. Every handler call
  invokes \<^verbatim>\<open>on_lock_change\<close> once with the new state if it toggles and not at all otherwise,
  so the calls of a run are its toggles. On a toggle from locked to unlocked the cache is
  reset before the current sample is recorded.
\<close>

theorem lock_state_machine:
  "(let s' = fst (handleIMUData ar d millis s); evs = snd (handleIMUData ar d millis s)
    in (\<not> isEMGSynced s \<longrightarrow> locked s' = locked s \<and> evs = [])
     \<and> (\<not> lock_eval_active s millis \<longrightarrow>
           locked s' = locked s \<and> lock_toggle s' = lock_toggle s \<and> gesture s' = gesture s
           \<and> evs = [])
     \<and> (lock_eval_active s millis \<and> \<not> below_threshold s \<longrightarrow>
           locked s' = locked s \<and> \<not> lock_toggle s' \<and> lock_changes evs = [])
     \<and> (lock_eval_active s millis \<and> below_threshold s \<longrightarrow>
           (locked s' \<noteq> locked s \<longleftrightarrow>
              \<not> lock_toggle s \<or> (\<not> locked s \<and> gestureBufferFull (gesture s)))
           \<and> lock_toggle s')
     \<and> lock_changes evs = (if locked s' \<noteq> locked s then [locked s'] else [])
     \<and> (locked s \<and> \<not> locked s' \<longrightarrow>
           gesture s' =
             updateGestureCache (local_2_1 d) (local_2_0 d) (roll_angle d)
               (resetGestureCache (gesture s))))
   \<and> locked (fst (handleEMGData data millis1 millis2 s)) = locked s
   \<and> lock_toggle (fst (handleEMGData data millis1 millis2 s)) = lock_toggle s
   \<and> lock_changes (snd (handleEMGData data millis1 millis2 s)) = []
   \<and> lock_changes (snd (run ar inputs s)) = toggles ar inputs s"
proof -
  have a: "lock_eval_active s millis \<Longrightarrow> isEMGSynced s"
    by (simp add: lock_eval_active_def)
  show ?thesis
    unfolding Let_def
    using a by (auto simp add: handleIMUData_cases handleEMGData_lock run_lock_changes)
qed

text \<open>
  A locked controller after a held pose (\<open>lock_toggle\<close> clear), with the sum at 0 of a
  reference of 100, receives 65 samples. The EMG sums do not change, so every sample is below
  the threshold: the first unlocks, the next 63 fill the cache, and the 65th locks again.
\<close>

theorem relock_without_pose:
  "below_threshold (synced_state 0 True False 0)
   \<and> snd (run exact_arith (replicate 65 (IMU rest_sample 5000)) (synced_state 0 True False 0))
       = [OnLockChange False, OnLockChange True]"
proof -
  let ?x = "IMU rest_sample 5000"
  let ?s0 = "synced_state 0 True False 0"
  let ?g1 = "updateGestureCache (local_2_1 rest_sample) (local_2_0 rest_sample)
               (roll_angle rest_sample) (resetGestureCache (gesture ?s0))"
  let ?s1 = "?s0\<lparr>lock_toggle := True, locked := False, gesture := ?g1\<rparr>"
  let ?g64 = "push_all (replicate 63 (local_2_1 rest_sample, local_2_0 rest_sample,
                roll_angle rest_sample)) ?g1"
  have b: "below_threshold ?s0" and a: "lock_eval_active ?s0 5000"
    by (simp_all add: synced_state_simps)
  have off1: "gesture_cache_offset ?g1 = 2"
    by (simp add: updateGestureCache_def resetGestureCache_def GESTURE_CACHE_SIZE_def)
  have first: "handleIMUData exact_arith rest_sample 5000 ?s0 = (?s1\<lparr>refresh_init := False\<rparr>, [OnLockChange False])"
    using a b by (simp add: handleIMUData_cases synced_state_simps gestureBufferFull_def
        GESTURE_CACHE_SIZE_def)
  have rec: "run exact_arith (replicate 63 ?x) (?s1\<lparr>refresh_init := False\<rparr>)
               = (?s1\<lparr>refresh_init := False, gesture := ?g64\<rparr>, [])"
    using recording_run [of ?s1 5000 63 exact_arith rest_sample] a b off1
    by (simp add: GESTURE_CACHE_SIZE_def)
  have "gesture_cache_offset ?g64 = gesture_cache_offset ?g1 + 2 * int (length (replicate 63
          (local_2_1 rest_sample, local_2_0 rest_sample, roll_angle rest_sample)))"
    by (rule push_all_offset) (simp_all add: off1 GESTURE_CACHE_SIZE_def)
  then have full: "gestureBufferFull ?g64"
    by (simp add: off1 gestureBufferFull_def GESTURE_CACHE_SIZE_def)
  have last: "snd (handleIMUData exact_arith rest_sample 5000 (?s1\<lparr>refresh_init := False, gesture := ?g64\<rparr>))
                = [OnLockChange True]"
    using a b full by (simp add: handleIMUData_cases)
  have "replicate 65 ?x = ?x # (replicate 63 ?x @ [?x])"
    by (simp add: numeral_eq_Suc replicate_app_Cons_same)
  then have "snd (run exact_arith (replicate 65 ?x) ?s0) = [OnLockChange False, OnLockChange True]"
    using first rec last by (simp add: run_append case_prod_beta)
  with b show ?thesis by simp
qed

theorem lock_state_machine_witness:
  "locked (fst (handleIMUData exact_arith rest_sample 5000 controller_init)) = locked controller_init
   \<and> \<not> lock_toggle (fst (handleIMUData exact_arith rest_sample 5000 (synced_state 100 True True 0)))
   \<and> lock_changes (snd (handleIMUData exact_arith rest_sample 5000 (synced_state 0 True False 64))) = [False]
   \<and> gesture_cache_offset
        (gesture (fst (handleIMUData exact_arith rest_sample 5000 (synced_state 0 True False 64)))) = 2
   \<and> lock_changes (snd (handleIMUData exact_arith rest_sample 5000 (synced_state 0 False False 64))) = [True]
   \<and> lock_changes (snd (handleIMUData exact_arith rest_sample 5000 (synced_state 0 True True 0))) = []"
proof -
  have "\<not> isEMGSynced controller_init" by (simp add: controller_init_def)
  then have 1: "locked (fst (handleIMUData exact_arith rest_sample 5000 controller_init))
                  = locked controller_init"
    using lock_state_machine [of exact_arith rest_sample 5000 controller_init "[]" 0 0 "[]"]
    by (simp add: Let_def)
  have 2: "\<not> lock_toggle (fst (handleIMUData exact_arith rest_sample 5000 (synced_state 100 True True 0)))"
    using lock_state_machine [of exact_arith rest_sample 5000 "synced_state 100 True True 0" "[]" 0 0 "[]"]
    by (simp add: Let_def synced_state_simps)
  have 3: "lock_changes (snd (handleIMUData exact_arith rest_sample 5000 (synced_state 0 True False 64)))
             = [False]
           \<and> gesture_cache_offset
               (gesture (fst (handleIMUData exact_arith rest_sample 5000 (synced_state 0 True False 64)))) = 2"
    using lock_state_machine [of exact_arith rest_sample 5000 "synced_state 0 True False 64" "[]" 0 0 "[]"]
    by (simp add: Let_def synced_state_simps updateGestureCache_def resetGestureCache_def
        GESTURE_CACHE_SIZE_def)
  have 4: "lock_changes (snd (handleIMUData exact_arith rest_sample 5000 (synced_state 0 False False 64)))
             = [True]"
    using lock_state_machine [of exact_arith rest_sample 5000 "synced_state 0 False False 64" "[]" 0 0 "[]"]
    by (simp add: Let_def synced_state_simps)
  have 5: "lock_changes (snd (handleIMUData exact_arith rest_sample 5000 (synced_state 0 True True 0))) = []"
    using lock_state_machine [of exact_arith rest_sample 5000 "synced_state 0 True True 0" "[]" 0 0 "[]"]
    by (simp add: Let_def synced_state_simps)
  from 1 2 3 4 5 show ?thesis by simp
qed

text \<open>
  C8. With the lock evaluation active, the controller unlocked, the cache full and a ratio
  below the threshold, the handler resets the cache (offset and roll angle 0), ends up
  locked whatever \<open>lock_toggle\<close> was, and its only call is \<^verbatim>\<open>on_lock_change(true)\<close>: the
  gesture callback is not invoked.
\<close>

theorem overflow_relock:
  "lock_eval_active s millis \<Longrightarrow> below_threshold s \<Longrightarrow> \<not> locked s
   \<Longrightarrow> gestureBufferFull (gesture s) \<Longrightarrow>
   gesture_cache_offset (gesture (fst (handleIMUData ar d millis s))) = 0
   \<and> gesture_roll_angle (gesture (fst (handleIMUData ar d millis s))) = Fin 0
   \<and> locked (fst (handleIMUData ar d millis s))
   \<and> lock_toggle (fst (handleIMUData ar d millis s))
   \<and> snd (handleIMUData ar d millis s) = [OnLockChange True]"
  by (simp add: handleIMUData_cases resetGestureCache_def)

theorem overflow_relock_witness:
  "locked (fst (handleIMUData exact_arith rest_sample 5000 (synced_state 0 False True 128)))
   \<and> gesture_cache_offset
        (gesture (fst (handleIMUData exact_arith rest_sample 5000 (synced_state 0 False True 128)))) = 0
   \<and> snd (handleIMUData exact_arith rest_sample 5000 (synced_state 0 False True 128)) = [OnLockChange True]"
  using overflow_relock [of "synced_state 0 False True 128" 5000 exact_arith rest_sample]
  by (simp add: synced_state_simps gestureBufferFull_def GESTURE_CACHE_SIZE_def)

text \<open>
  C9. \<^verbatim>\<open>handleIMUData\<close> invokes \<^verbatim>\<open>on_gesture\<close> exactly when the lock evaluation is active, the
  ratio is not below the threshold, \<open>lock_toggle\<close> is set (the pose starts), the controller
  is unlocked and the classifier's label for the cache is not \<open>ARM_UNKNOWN\<close>; the argument is
  that label, and the classification empties the cache before the sample is recorded.
  After an evaluated sample \<open>lock_toggle\<close> says whether the ratio was below the threshold,
  so that the sample after a sample that holds the pose invokes nothing: one call per
  start of the pose. The handler leaves the EMG sums, the sync flag and the sync time
  alone. \<^verbatim>\<open>handleEMGData\<close> never invokes \<^verbatim>\<open>on_gesture\<close> and leaves \<open>lock_toggle\<close> alone. The
  calls of a run are those at the starts of the pose, as told from the ratios of its
  evaluated samples, and none has the argument \<open>ARM_UNKNOWN\<close>.
\<close>

theorem gesture_callback:
  "gestures (snd (handleIMUData ar d millis s)) =
     (if lock_eval_active s millis \<and> \<not> below_threshold s \<and> lock_toggle s \<and> \<not> locked s
         \<and> fst (processCacheData ar (gesture s)) \<noteq> ARM_UNKNOWN
      then [fst (processCacheData ar (gesture s))] else [])
   \<and> (lock_eval_active s millis \<and> \<not> below_threshold s \<and> lock_toggle s \<and> \<not> locked s \<longrightarrow>
        gesture (fst (handleIMUData ar d millis s)) =
          updateGestureCache (local_2_1 d) (local_2_0 d) (roll_angle d)
            (snd (processCacheData ar (gesture s))))
   \<and> lock_toggle (fst (handleIMUData ar d millis s)) =
        (if lock_eval_active s millis then below_threshold s else lock_toggle s)
   \<and> (lock_eval_active s millis \<and> \<not> below_threshold s \<longrightarrow>
        gestures (snd (handleIMUData ar d' millis' (fst (handleIMUData ar d millis s)))) = [])
   \<and> emgSum (fst (handleIMUData ar d millis s)) = emgSum s
   \<and> emgSync (fst (handleIMUData ar d millis s)) = emgSync s
   \<and> isEMGSynced (fst (handleIMUData ar d millis s)) = isEMGSynced s
   \<and> timeConnected (fst (handleIMUData ar d millis s)) = timeConnected s
   \<and> gestures (snd (handleEMGData data millis1 millis2 s)) = []
   \<and> lock_toggle (fst (handleEMGData data millis1 millis2 s)) = lock_toggle s
   \<and> gestures (snd (run ar inputs s)) = pose_start_gestures ar (lock_toggle s) inputs s
   \<and> ARM_UNKNOWN \<notin> set (gestures (snd (run ar inputs s)))"
proof -
  have g: "gesture (fst (handleIMUData ar d millis s)) =
          updateGestureCache (local_2_1 d) (local_2_0 d) (roll_angle d)
            (snd (processCacheData ar (gesture s)))"
    if "lock_eval_active s millis" "\<not> below_threshold s" "lock_toggle s" "\<not> locked s"
    using that by (simp add: handleIMUData_cases)
  have n: "gestures (snd (handleIMUData ar d' millis' (fst (handleIMUData ar d millis s)))) = []"
    if "lock_eval_active s millis" "\<not> below_threshold s"
    using that by (simp add: handleIMUData_gestures handleIMUData_toggle)
  show ?thesis
    using g n gestures_run [of ar inputs s] run_pose_start_gestures [of ar inputs s]
    by (simp add: handleIMUData_gestures handleIMUData_toggle handleIMUData_keeps
        handleEMGData_lock)
qed

text \<open>
  An unlocked controller whose cache holds the point \<open>(1/2, 0)\<close> receives two samples that
  hold the pose: the first reports \<open>ARM_RIGHT\<close>, the second nothing. With an empty cache
  nothing is reported.
\<close>

theorem gesture_callback_witness:
  "gestures (snd (run exact_arith [IMU rest_sample 5000, IMU rest_sample 5001]
      ((synced_state 100 False True 0)\<lparr>gesture := single_point (1 / 2) 0 0\<rparr>))) = [ARM_RIGHT]
   \<and> gestures (snd (handleIMUData exact_arith rest_sample 5000
      ((synced_state 100 False True 0)\<lparr>gesture := single_point (1 / 2) 0 0\<rparr>))) = [ARM_RIGHT]
   \<and> \<not> lock_toggle (fst (handleIMUData exact_arith rest_sample 5000
      ((synced_state 100 False True 0)\<lparr>gesture := single_point (1 / 2) 0 0\<rparr>)))
   \<and> gesture_cache_offset (gesture (fst (handleIMUData exact_arith rest_sample 5000
      ((synced_state 100 False True 0)\<lparr>gesture := single_point (1 / 2) 0 0\<rparr>)))) = 2
   \<and> gestures (snd (handleIMUData exact_arith rest_sample 5000 (synced_state 100 False True 0)))
       = []"
proof -
  let ?s = "(synced_state 100 False True 0)\<lparr>gesture := single_point (1 / 2) 0 0\<rparr>"
  have e: "fst (processCacheData exact_arith (gesture_init\<lparr>gesture_cache_offset := 0\<rparr>))
             = ARM_UNKNOWN"
    by (simp add: processCacheData_def num_points_of_def empty_cache_unknown)
  have a: "lock_eval_active ?s 5000" "lock_eval_active ?s 5001" "\<not> below_threshold ?s"
    "lock_toggle ?s" "\<not> locked ?s" "gesture ?s = single_point (1 / 2) 0 0"
    by (simp_all add: synced_state_def controller_init_def lock_eval_active_def
        below_threshold_def emg_ratio_def EMG_SYNC_TIME_def AFTER_SYNC_WAIT_def
        LOCK_TOGGLE_THRESHOLD_def)
  have o: "gesture_cache_offset
             (updateGestureCache x y r (snd (processCacheData exact_arith (single_point u v w))))
             = 2" for x y r u v w
    by (simp add: updateGestureCache_def processCacheData_def GESTURE_CACHE_SIZE_def)
  show ?thesis
    using gesture_callback [of exact_arith rest_sample 5000 ?s rest_sample 5001 "[]" 0 0
        "[IMU rest_sample 5000, IMU rest_sample 5001]"]
      gesture_callback [of exact_arith rest_sample 5000 "synced_state 100 False True 0"
        rest_sample 5001 "[]" 0 0 "[]"]
      single_point_right e
    by (simp add: a o synced_state_simps handleIMUData_keeps Let_def)
qed

text \<open>
  C10 at the start of the controller. \<open>locked\<close> starts \<open>False\<close> and the sync does not set it:
  after a sync with one strong sample the controller is synced and still unlocked, and the
  first orientation sample after the settle delay, with the ratio at 0, is recorded although
  \<^verbatim>\<open>on_lock_change\<close> has not been called.
\<close>

theorem sync_leaves_unlocked:
  "\<not> locked controller_init
   \<and> isEMGSynced (fst (run ar sync_run controller_init))
   \<and> \<not> locked (fst (run ar sync_run controller_init))
   \<and> snd (run ar sync_run controller_init) = [Vibrate 1]
   \<and> lock_eval_active (fst (run ar sync_run controller_init)) 3502
   \<and> below_threshold (fst (run ar sync_run controller_init))
   \<and> gesture_cache_offset (gesture (fst (run ar sync_run controller_init))) = 0
   \<and> gesture_cache_offset
        (gesture (fst (run ar (sync_run @ [IMU rest_sample 3502]) controller_init))) = 2
   \<and> snd (run ar (sync_run @ [IMU rest_sample 3502]) controller_init) = [Vibrate 1]"
proof -
  let ?s = "(sync_rows (replicate 10 silent_emg) 0)\<lparr>isEMGSynced := True\<rparr>"
  have f: "\<not> locked ?s" "isEMGSynced ?s" "lock_toggle ?s" "gesture ?s = gesture_init"
    by (simp_all add: sync_rows_def controller_init_def)
  have a: "lock_eval_active ?s 3502"
    by (simp add: lock_eval_active_def sync_rows_def EMG_SYNC_TIME_def AFTER_SYNC_WAIT_def)
  have b: "below_threshold ?s"
    by (simp add: below_threshold_def emg_ratio_def sync_rows_def LOCK_TOGGLE_THRESHOLD_def)
  have nf: "\<not> gestureBufferFull gesture_init"
    by (simp add: gestureBufferFull_def gesture_init_def GESTURE_CACHE_SIZE_def)
  have h: "handleIMUData ar rest_sample 3502 ?s =
      (?s\<lparr>refresh_init := False,
          gesture := updateGestureCache (local_2_1 rest_sample) (local_2_0 rest_sample)
                       (roll_angle rest_sample) gesture_init\<rparr>, [])"
    using a b f nf by (simp add: handleIMUData_cases)
  have o: "gesture_cache_offset (updateGestureCache x y r gesture_init) = 2" for x y r
    by (simp add: updateGestureCache_def gesture_init_def GESTURE_CACHE_SIZE_def)
  have "\<not> locked controller_init" by (simp add: controller_init_def)
  moreover have "gesture_cache_offset gesture_init = 0" by (simp add: gesture_init_def)
  ultimately show ?thesis
    using a b f by (simp add: run_append sync_run_state h o)
qed

end
